theory Spec2Isabelle
  imports Complex_Main "HOL-Library.Multiset" "HOL-Library.Log_Nat"
begin

section \<open>Data model (types.ts)\<close>

text \<open>
  A TypeScript \<open>number\<close> is modelled as a rational; the values \<open>NaN\<close> and \<open>Infinity\<close> are
  outside the model. The arithmetic is exact except in the weight of a sheet, which is
  computed with the rounding of IEEE doubles (see there): the area of a part is one
  product of two sizes, exact in doubles for whole millimetres, and the comparator of the
  sort only looks at the sign of a difference, which rounding keeps. Several interfaces
  of the source share field names (\<open>width\<close>, \<open>length\<close>, \<open>thickness\<close>, \<open>grade\<close>), and
  \<open>id\<close> and \<open>length\<close> are constants of HOL, so the fields of those interfaces carry a
  prefix naming the interface; after the prefix the name is the source's.
\<close>

type_synonym number = rat

record Part =
  p_id :: string
  p_width :: number
  p_length :: number
  p_quantity :: number
  p_thickness :: number
  p_grade :: string
  p_projectName :: string

text \<open>\<open>Part & { area: number, exceedsSheetLength: boolean }\<close>, the element type of
  \<open>MaterialGroup.parts\<close>.\<close>

record AnnotatedPart = Part +
  area :: number
  exceedsSheetLength :: bool

record MaterialGroup =
  mg_materialKey :: string
  mg_thickness :: number
  mg_grade :: string
  mg_parts :: "AnnotatedPart list"

record RollWeightRange =
  rw_min :: number
  rw_max :: number

record UserParameters =
  maxSheetLength :: number
  kerf :: number
  candidateCoilWidths :: string
  rollWeightRange :: RollWeightRange
  algorithm :: string

record NestedPart =
  np_partId :: string
  np_x :: number
  np_y :: number
  np_width :: number
  np_length :: number
  np_rotated :: bool

record SheetLayout =
  sl_sheetNumber :: number
  sl_width :: number
  sl_length :: number
  sl_nestedParts :: "NestedPart list"
  sl_wastePercentage :: number

record OptimizationGroupResult =
  gr_materialKey :: string
  gr_thickness :: number
  gr_grade :: string
  gr_totalPartsNested :: number
  gr_totalSheetsUsed :: number
  gr_averageWastePercentage :: number
  gr_layouts :: "SheetLayout list"

record Summary =
  totalParts :: number
  totalPartsNested :: number
  numberOfGroups :: number
  overallWastePercentage :: number

record OptimizationResult =
  summary :: Summary
  resultsByGroup :: "OptimizationGroupResult list"


section \<open>Sheet weight (ResultsDisplay.tsx, pdfGenerator)\<close>

text \<open>
  The weight is where the rounding of the arithmetic matters, so here the operations are
  those of IEEE 754 binary64, which a TypeScript \<open>number\<close> is: the value of an operation is
  its exact result rounded to the nearest number with a significand of 53 bits, a tie
  going to the even significand. The exponent is unbounded in the model: overflow (above
  about 1.8 * 10^308) and the subnormal numbers (below about 2.2 * 10^-308) are outside it.
\<close>

definition roundHalfEven :: "rat \<Rightarrow> int" where
  "roundHalfEven q =
     (let f = \<lfloor>q\<rfloor>; r = q - of_int f
      in if r < 1 / 2 then f else if 1 / 2 < r then f + 1 else if even f then f else f + 1)"

text \<open>The exponent \<open>e\<close> of a number other than zero: \<open>2^e \<le> |x| < 2^(e+1)\<close>. The bit lengths
  of numerator and denominator give it up to one.\<close>

definition binaryExponent :: "rat \<Rightarrow> int" where
  "binaryExponent x =
     (case quotient_of \<bar>x\<bar> of (a, b) \<Rightarrow>
        let d = bitlen a - bitlen b in if 2 powi d \<le> \<bar>x\<bar> then d else d - 1)"

definition roundDouble :: "number \<Rightarrow> number" where
  "roundDouble x =
     (if x = 0 then 0
      else let ulp = 2 powi (binaryExponent x - 52) in of_int (roundHalfEven (x / ulp)) * ulp)"

text \<open>The operators \<open>*\<close> and \<open>/\<close> on numbers.\<close>

definition timesDouble :: "number \<Rightarrow> number \<Rightarrow> number" where
  "timesDouble x y = roundDouble (x * y)"

definition divideDouble :: "number \<Rightarrow> number \<Rightarrow> number" where
  "divideDouble x y = roundDouble (x / y)"

text \<open>
  \<open>GroupResultCard\<close> and \<open>exportToPdf\<close> compute the weight of a sheet with one and the
  same expression,
  \<^verbatim>\<open>(layout.width / 1000) * (layout.length / 1000) * (group.thickness / 1000) * steelDensityKgPerM3\<close>,
  so one definition embeds both. The products associate to the left.
\<close>

definition steelDensityKgPerM3 :: number where
  "steelDensityKgPerM3 = 7850"

definition weightKg :: "SheetLayout \<Rightarrow> OptimizationGroupResult \<Rightarrow> number" where
  "weightKg layout grp =
     timesDouble
       (timesDouble
          (timesDouble (divideDouble (sl_width layout) 1000) (divideDouble (sl_length layout) 1000))
          (divideDouble (gr_thickness grp) 1000))
       steelDensityKgPerM3"

text \<open>Both sites show the weight with \<open>toFixed(2)\<close>: the number of hundredths nearest to it,
  the larger one on a tie.\<close>

definition toFixedHundredths :: "number \<Rightarrow> int" where
  "toFixedHundredths x = \<lfloor>x * 100 + 1 / 2\<rfloor>"

text \<open>The weight formula in the words of the specification (and of the prompt that
  \<open>runOptimization\<close> sends): width (mm) * length (mm) * thickness (mm) * 0.00000785, as a
  formula over exact numbers.\<close>

definition spec_weight_kg :: "number \<Rightarrow> number \<Rightarrow> number \<Rightarrow> number" where
  "spec_weight_kg width_mm length_mm thickness_mm =
     width_mm * length_mm * thickness_mm * 0.00000785"

text \<open>The same formula computed in doubles from left to right, the constant being the
  double nearest to 0.00000785.\<close>

definition spec_weight_kg_doubles :: "number \<Rightarrow> number \<Rightarrow> number \<Rightarrow> number" where
  "spec_weight_kg_doubles width_mm length_mm thickness_mm =
     timesDouble (timesDouble (timesDouble width_mm length_mm) thickness_mm)
       (roundDouble 0.00000785)"

text \<open>The unit roundoff of binary64, and a value that lies within \<open>k\<close> roundings of an
  exact one.\<close>

definition unitRoundoff :: rat where
  "unitRoundoff = 1 / 2 ^ 53"

definition roundedWithin :: "nat \<Rightarrow> number \<Rightarrow> number \<Rightarrow> bool" where
  "roundedWithin k v x \<longleftrightarrow>
     (1 - unitRoundoff) ^ k * x \<le> v \<and> v \<le> (1 + unitRoundoff) ^ k * x"

text \<open>Sizes for which no intermediate result of the weight expression overflows or is
  subnormal, so that the model computes what the doubles compute.\<close>

definition sizeInRange :: "number \<Rightarrow> bool" where
  "sizeInRange x \<longleftrightarrow> x = 0 \<or> (1 / 10 ^ 90 \<le> x \<and> x \<le> 10 ^ 90)"


section \<open>Grouping and sorting (preprocessData)\<close>

text \<open>
  The group key is the template string \<^verbatim>\<open>`${part.grade}_${part.thickness}mm`\<close>. The
  conversion of a number to its text is a primitive of the language, taken here as the
  parameter \<open>numToString\<close>.
\<close>

definition materialKeyOf :: "(number \<Rightarrow> string) \<Rightarrow> 'a Part_scheme \<Rightarrow> string" where
  "materialKeyOf numToString part =
     p_grade part @ ''_'' @ numToString (p_thickness part) @ ''mm''"

text \<open>The object pushed to \<open>acc[key].parts\<close>:
  \<^verbatim>\<open>{ ...part, area, exceedsSheetLength: part.length > maxSheetLength }\<close>
  with \<^verbatim>\<open>area = part.width * part.length\<close>.\<close>

definition annotate :: "number \<Rightarrow> Part \<Rightarrow> AnnotatedPart" where
  "annotate maxLen part =
     \<lparr>p_id = p_id part, p_width = p_width part, p_length = p_length part,
      p_quantity = p_quantity part, p_thickness = p_thickness part,
      p_grade = p_grade part, p_projectName = p_projectName part,
      area = p_width part * p_length part,
      exceedsSheetLength = (p_length part > maxLen)\<rparr>"

text \<open>
  The accumulator \<open>Record<string, MaterialGroup>\<close> is an association list in insertion
  order, which is the order \<open>Object.values\<close> enumerates: every key ends in \<open>mm\<close>, so none
  is an array index (those would be enumerated first) and none names a property inherited
  from \<open>Object.prototype\<close> (which \<open>!acc[key]\<close> would take for a group).
\<close>

type_synonym groups = "(string \<times> MaterialGroup) list"

definition pushPart :: "string \<Rightarrow> AnnotatedPart \<Rightarrow> groups \<Rightarrow> groups" where
  "pushPart key ap acc =
     map (\<lambda>(k, g). if k = key then (k, g\<lparr>mg_parts := mg_parts g @ [ap]\<rparr>) else (k, g)) acc"

text \<open>The callback of \<open>parts.reduce\<close>.\<close>

definition reducer :: "(number \<Rightarrow> string) \<Rightarrow> number \<Rightarrow> groups \<Rightarrow> Part \<Rightarrow> groups" where
  "reducer numToString maxLen acc part =
     (let key = materialKeyOf numToString part;
          acc1 = (if map_of acc key = None
                  then acc @ [(key, \<lparr>mg_materialKey = key, mg_thickness = p_thickness part,
                                       mg_grade = p_grade part, mg_parts = []\<rparr>)]
                  else acc)
      in pushPart key (annotate maxLen part) acc1)"

text \<open>The comparator handed to \<open>group.parts.sort\<close>: a negative result puts \<open>a\<close> first.\<close>

definition compareParts :: "AnnotatedPart \<Rightarrow> AnnotatedPart \<Rightarrow> number" where
  "compareParts a b =
     (if p_width b \<noteq> p_width a then p_width b - p_width a
      else if area b \<noteq> area a then area b - area a
      else p_length b - p_length a)"

text \<open>
  \<open>Array.prototype.sort\<close> is a stable sort (ECMAScript 2019). For a comparator that is a
  total preorder, as \<open>compareParts\<close> is, the stably sorted permutation of a list is unique,
  and insertion from the right computes it.
\<close>

fun insertBy :: "('a \<Rightarrow> 'a \<Rightarrow> number) \<Rightarrow> 'a \<Rightarrow> 'a list \<Rightarrow> 'a list" where
  "insertBy cmp x [] = [x]"
| "insertBy cmp x (y # ys) = (if cmp x y \<le> 0 then x # y # ys else y # insertBy cmp x ys)"

definition sortBy :: "('a \<Rightarrow> 'a \<Rightarrow> number) \<Rightarrow> 'a list \<Rightarrow> 'a list" where
  "sortBy cmp xs = foldr (insertBy cmp) xs []"

definition sortGroup :: "MaterialGroup \<Rightarrow> MaterialGroup" where
  "sortGroup g = g\<lparr>mg_parts := sortBy compareParts (mg_parts g)\<rparr>"

definition preprocessData :: "(number \<Rightarrow> string) \<Rightarrow> Part list \<Rightarrow> number \<Rightarrow> MaterialGroup list" where
  "preprocessData numToString parts maxLen =
     (let groups = foldl (reducer numToString maxLen) [] parts
      in map (\<lambda>(k, g). sortGroup g) groups)"


text \<open>
  What the grouping amounts to, for stating results: the keys in the order of their first
  occurrence, and the group that belongs to a key.
\<close>

fun firstOccurrences :: "'a list \<Rightarrow> 'a list" where
  "firstOccurrences [] = []"
| "firstOccurrences (x # xs) = x # filter (\<lambda>y. y \<noteq> x) (firstOccurrences xs)"

definition groupOf :: "(number \<Rightarrow> string) \<Rightarrow> number \<Rightarrow> Part list \<Rightarrow> string \<Rightarrow> MaterialGroup" where
  "groupOf numToString maxLen parts k =
     (let members = filter (\<lambda>p. materialKeyOf numToString p = k) parts
      in \<lparr>mg_materialKey = k, mg_thickness = p_thickness (hd members),
          mg_grade = p_grade (hd members), mg_parts = map (annotate maxLen) members\<rparr>)"

text \<open>
  What is needed of the number-to-text conversion on the thicknesses that occur: distinct
  numbers have distinct texts, and no text contains an underscore. The conversion of
  ECMAScript has both properties on the finite numbers: its texts are made of digits,
  \<open>.\<close>, \<open>e\<close>, \<open>+\<close> and \<open>-\<close>, and they read back to the number (only \<open>0\<close> and \<open>-0\<close>
  share a text, and validated thicknesses are positive).
\<close>

definition rendersFaithfully :: "(number \<Rightarrow> string) \<Rightarrow> number set \<Rightarrow> bool" where
  "rendersFaithfully numToString S \<longleftrightarrow>
     inj_on numToString S \<and> (\<forall>t \<in> S. CHR ''_'' \<notin> set (numToString t))"

text \<open>The sort order in the words of the specification: descending, primary key width,
  tie-break area, tie-break length. \<open>sortKey\<close> is the triple two parts tie on.\<close>

definition spec_precedes :: "AnnotatedPart \<Rightarrow> AnnotatedPart \<Rightarrow> bool" where
  "spec_precedes a b \<longleftrightarrow>
     p_width a > p_width b \<or>
     (p_width a = p_width b \<and>
        (area a > area b \<or> (area a = area b \<and> p_length a \<ge> p_length b)))"

definition sortKey :: "AnnotatedPart \<Rightarrow> number \<times> number \<times> number" where
  "sortKey a = (p_width a, area a, p_length a)"


section \<open>The optimization call (runOptimization)\<close>

text \<open>
  \<open>runOptimization\<close> contains no packing algorithm. It groups the parts, splices the
  parameters and the groups into a prompt, sends the prompt to a remote generative model
  and returns the parsed answer. The \<open>switch\<close> on \<open>parameters.algorithm\<close> selects one of
  four instruction texts.
\<close>

datatype instruction =
  GeneticInstruction | AnnealingInstruction | BZ12Instruction | MockEngineInstruction

definition algorithmInstruction :: "string \<Rightarrow> instruction" where
  "algorithmInstruction alg =
     (if alg = ''Genetic Algorithm'' then GeneticInstruction
      else if alg = ''Simulated Annealing'' then AnnealingInstruction
      else if alg = ''BZ12'' then BZ12Instruction
      else MockEngineInstruction)"

text \<open>The prompt is a fixed text around spliced values; the record keeps the values: the
  instruction, the parameters (some fields are spliced singly, and all of them as
  \<open>JSON.stringify(parameters)\<close>) and \<open>JSON.stringify(materialGroups)\<close>.\<close>

record Prompt =
  pr_instruction :: instruction
  pr_parameters :: UserParameters
  pr_materialGroups :: "MaterialGroup list"

text \<open>
  The outcome of the \<open>try\<close> block for one prompt: \<open>generateContent\<close>,
  \<open>response.text.trim()\<close> or \<open>JSON.parse\<close> throws an \<open>Error\<close> with a message, or
  something that is not an \<open>Error\<close> is thrown, or the text parses. The request carries a
  response schema, which fixes the fields of the answer and none of their values. The
  parsed value is returned under the unchecked cast \<open>as OptimizationResult\<close>; the model
  takes it to have that shape. The remote service is a parameter of the model: a function
  from the prompt to the outcome of the call. The construction of the client
  (\<open>new GoogleGenAI\<close>), which is outside the \<open>try\<close>, is taken to return.
\<close>

datatype outcome =
  Threw string
| ThrewOther
| Parsed OptimizationResult

type_synonym service = "Prompt \<Rightarrow> outcome"

text \<open>\<open>String.prototype.includes\<close> (\<open>includes\<close> is a keyword of Isabelle).\<close>

fun includes_str :: "string \<Rightarrow> string \<Rightarrow> bool" where
  "includes_str [] sub = (sub = [])"
| "includes_str (c # cs) sub = (take (length sub) (c # cs) = sub \<or> includes_str cs sub)"

definition buildPrompt :: "(number \<Rightarrow> string) \<Rightarrow> Part list \<Rightarrow> UserParameters \<Rightarrow> Prompt" where
  "buildPrompt numToString parts parameters =
     \<lparr>pr_instruction = algorithmInstruction (algorithm parameters),
      pr_parameters = parameters,
      pr_materialGroups = preprocessData numToString parts (maxSheetLength parameters)\<rparr>"

definition runOptimization ::
  "service \<Rightarrow> (number \<Rightarrow> string) \<Rightarrow> Part list \<Rightarrow> UserParameters \<Rightarrow> string + OptimizationResult" where
  "runOptimization generateContent numToString parts parameters =
     (case generateContent (buildPrompt numToString parts parameters) of
        Parsed result \<Rightarrow> Inr result
      | Threw message \<Rightarrow>
          if includes_str message ''API_KEY''
          then Inl ''Invalid or missing API Key. Please ensure it is set correctly.''
          else Inl ''Failed to get a valid response from the optimization engine.''
      | ThrewOther \<Rightarrow> Inl ''Failed to get a valid response from the optimization engine.'')"

text \<open>
  The properties the specification asks of the sheets of a result, in its words. The
  candidate widths are a comma-separated text in \<open>UserParameters\<close>, which the code never
  reads as numbers; the predicate takes the numbers the text stands for as \<open>widths\<close>.
\<close>

definition weightInRange :: "UserParameters \<Rightarrow> OptimizationGroupResult \<Rightarrow> SheetLayout \<Rightarrow> bool" where
  "weightInRange parameters grp layout \<longleftrightarrow>
     rw_min (rollWeightRange parameters)
       \<le> spec_weight_kg (sl_width layout) (sl_length layout) (gr_thickness grp) \<and>
     spec_weight_kg (sl_width layout) (sl_length layout) (gr_thickness grp)
       \<le> rw_max (rollWeightRange parameters)"

definition sheetLimitsHold :: "number list \<Rightarrow> UserParameters \<Rightarrow> OptimizationResult \<Rightarrow> bool" where
  "sheetLimitsHold widths parameters result \<longleftrightarrow>
     (\<forall>grp \<in> set (resultsByGroup result).
        (\<forall>layout \<in> set (gr_layouts grp).
           sl_length layout \<le> maxSheetLength parameters \<and> sl_width layout \<in> set widths) \<and>
        (\<forall>layout \<in> set (butlast (gr_layouts grp)). weightInRange parameters grp layout))"

text \<open>A rotated part occupies its length across the sheet and its width along it, as
  \<open>exportToDxf\<close> draws it (\<open>drawW = part.rotated ? l : w\<close>).\<close>

definition effectiveWidth :: "NestedPart \<Rightarrow> number" where
  "effectiveWidth part = (if np_rotated part then np_length part else np_width part)"

definition effectiveLength :: "NestedPart \<Rightarrow> number" where
  "effectiveLength part = (if np_rotated part then np_width part else np_length part)"

definition withinSheet :: "SheetLayout \<Rightarrow> NestedPart \<Rightarrow> bool" where
  "withinSheet layout part \<longleftrightarrow>
     0 \<le> np_x part \<and> 0 \<le> np_y part \<and>
     np_x part + effectiveWidth part \<le> sl_width layout \<and>
     np_y part + effectiveLength part \<le> sl_length layout"

text \<open>Two boxes, each inflated by half the kerf on every side, do not overlap when one
  ends at least a kerf before the other begins, across or along the sheet.\<close>

definition kerfApart :: "number \<Rightarrow> NestedPart \<Rightarrow> NestedPart \<Rightarrow> bool" where
  "kerfApart k a b \<longleftrightarrow>
     np_x a + effectiveWidth a + k \<le> np_x b \<or> np_x b + effectiveWidth b + k \<le> np_x a \<or>
     np_y a + effectiveLength a + k \<le> np_y b \<or> np_y b + effectiveLength b + k \<le> np_y a"

fun pairwiseApart :: "number \<Rightarrow> NestedPart list \<Rightarrow> bool" where
  "pairwiseApart k [] = True"
| "pairwiseApart k (a # rest) = ((\<forall>b \<in> set rest. kerfApart k a b) \<and> pairwiseApart k rest)"

definition placementsHold :: "UserParameters \<Rightarrow> OptimizationResult \<Rightarrow> bool" where
  "placementsHold parameters result \<longleftrightarrow>
     (\<forall>grp \<in> set (resultsByGroup result). \<forall>layout \<in> set (gr_layouts grp).
        (\<forall>part \<in> set (sl_nestedParts layout). withinSheet layout part) \<and>
        pairwiseApart (kerf parameters) (sl_nestedParts layout))"

text \<open>The ids of the parts placed anywhere in a result.\<close>

definition placedIds :: "OptimizationResult \<Rightarrow> string set" where
  "placedIds result =
     (\<Union>grp \<in> set (resultsByGroup result). \<Union>layout \<in> set (gr_layouts grp).
        np_partId ` set (sl_nestedParts layout))"


section \<open>Validation and the run handler (App.tsx)\<close>

text \<open>
  The messages of the application are Thai texts. Each is a constructor here:
  \<open>MustBePositive\<close> (must be greater than 0), \<open>MustBePositiveInteger\<close> (must be a positive
  whole number), \<open>MustNotBeEmpty\<close> (must not be empty), and for the banner
  \<open>FixTableErrors\<close> (please correct the errors in the table before proceeding) or the
  message of the error that \<open>runOptimization\<close> threw.
\<close>

datatype fieldMessage = MustBePositive | MustBePositiveInteger | MustNotBeEmpty

datatype bannerMessage = FixTableErrors | EngineMessage string

record PartError =
  e_width :: "fieldMessage option"
  e_length :: "fieldMessage option"
  e_quantity :: "fieldMessage option"
  e_thickness :: "fieldMessage option"
  e_grade :: "fieldMessage option"
  e_projectName :: "fieldMessage option"

text \<open>The component's state, one field for each \<open>useState\<close> hook (prefix \<open>st_\<close>).
  \<open>errors\<close> is an object used as a dictionary from part id to \<open>PartError\<close>.\<close>

record AppState =
  st_parts :: "Part list"
  st_parameters :: UserParameters
  st_errors :: "string \<rightharpoonup> PartError"
  st_optimizationResult :: "OptimizationResult option"
  st_isLoading :: bool
  st_apiError :: "bannerMessage option"

text \<open>\<open>Number.isInteger\<close>.\<close>

definition isInteger :: "number \<Rightarrow> bool" where
  "isInteger q \<longleftrightarrow> of_int \<lfloor>q\<rfloor> = q"

text \<open>The body of the \<open>forEach\<close> in \<open>validateParts\<close>: the six checks on one part. An empty
  string is falsy, so \<open>!part.grade\<close> holds of the empty grade.\<close>

definition checkPart :: "Part \<Rightarrow> PartError" where
  "checkPart part =
     \<lparr>e_width = (if p_width part \<le> 0 then Some MustBePositive else None),
      e_length = (if p_length part \<le> 0 then Some MustBePositive else None),
      e_quantity = (if \<not> isInteger (p_quantity part) \<or> p_quantity part \<le> 0
                    then Some MustBePositiveInteger else None),
      e_thickness = (if p_thickness part \<le> 0 then Some MustBePositive else None),
      e_grade = (if p_grade part = [] then Some MustNotBeEmpty else None),
      e_projectName = (if p_projectName part = [] then Some MustNotBeEmpty else None)\<rparr>"

text \<open>\<open>Object.keys(partErrors).length\<close>.\<close>

definition errorCount :: "PartError \<Rightarrow> nat" where
  "errorCount pe =
     length (filter (\<lambda>m. m \<noteq> None)
       [e_width pe, e_length pe, e_quantity pe, e_thickness pe, e_grade pe, e_projectName pe])"

definition validateStep :: "(string \<rightharpoonup> PartError) \<times> bool \<Rightarrow> Part \<Rightarrow> (string \<rightharpoonup> PartError) \<times> bool" where
  "validateStep acc part =
     (case acc of (newErrors, hasErrors) \<Rightarrow>
        if errorCount (checkPart part) > 0
        then (newErrors(p_id part \<mapsto> checkPart part), True)
        else (newErrors, hasErrors))"

text \<open>\<open>validateParts\<close> stores the errors in the state and returns whether there were
  none.\<close>

definition validateParts :: "AppState \<Rightarrow> AppState \<times> bool" where
  "validateParts st =
     (case foldl validateStep (Map.empty, False) (st_parts st) of
        (newErrors, hasErrors) \<Rightarrow> (st\<lparr>st_errors := newErrors\<rparr>, \<not> hasErrors))"

text \<open>\<open>handleRunOptimization\<close>, from the click to the state after the \<open>finally\<close>. When the
  validation fails the handler returns before \<open>runOptimization\<close> is called.\<close>

definition handleRunOptimization :: "service \<Rightarrow> (number \<Rightarrow> string) \<Rightarrow> AppState \<Rightarrow> AppState" where
  "handleRunOptimization generateContent numToString st =
     (case validateParts st of (st1, ok) \<Rightarrow>
        if \<not> ok then st1\<lparr>st_apiError := Some FixTableErrors\<rparr>
        else
          (let st2 = st1\<lparr>st_isLoading := True, st_apiError := None,
                         st_optimizationResult := None\<rparr>
           in case runOptimization generateContent numToString (st_parts st2) (st_parameters st2) of
                Inr result \<Rightarrow> st2\<lparr>st_optimizationResult := Some result, st_isLoading := False\<rparr>
              | Inl message \<Rightarrow>
                  st2\<lparr>st_apiError := Some (EngineMessage message), st_isLoading := False\<rparr>))"

text \<open>The input errors of the specification, in its words: a non-positive width, length or
  thickness, or a quantity that is not a positive integer.\<close>

definition spec_inputInvalid :: "Part \<Rightarrow> bool" where
  "spec_inputInvalid part \<longleftrightarrow>
     p_width part \<le> 0 \<or> p_length part \<le> 0 \<or> p_thickness part \<le> 0 \<or>
     \<not> (isInteger (p_quantity part) \<and> p_quantity part > 0)"


section \<open>CSV export (exportService.ts)\<close>

text \<open>
  \<open>exportToCsv\<close> builds the array \<open>rows\<close> and joins it with line feeds; the text is then
  handed to the browser as the file \<open>nesting_results.csv\<close>. Besides \<open>numToString\<close>, the
  conversion \<open>toFixed(2)\<close> is a parameter.
\<close>

fun joinWith :: "string \<Rightarrow> string list \<Rightarrow> string" where
  "joinWith sep [] = []"
| "joinWith sep [x] = x"
| "joinWith sep (x # y # ys) = x @ sep @ joinWith sep (y # ys)"

definition header :: "string list" where
  "header =
     [''Material Group'', ''Thickness (mm)'', ''Grade'',
      ''Sheet Number'', ''Sheet Width (mm)'', ''Sheet Length (mm)'',
      ''Part ID'', ''Part Width (mm)'', ''Part Length (mm)'',
      ''X'', ''Y'', ''Rotated'', ''Sheet Waste %'']"

text \<open>A string between double quotes (character 0x22), as the template literals of the
  row do; nothing is escaped.\<close>

definition quoted :: "string \<Rightarrow> string" where
  "quoted s = [CHR 0x22] @ s @ [CHR 0x22]"

text \<open>\<open>part.width || 0\<close>: of a number, the number itself unless it is zero, and then zero.\<close>

definition orZero :: "number \<Rightarrow> number" where
  "orZero n = (if n \<noteq> 0 then n else 0)"

definition csvRow ::
  "(number \<Rightarrow> string) \<Rightarrow> (number \<Rightarrow> string) \<Rightarrow>
   OptimizationGroupResult \<Rightarrow> SheetLayout \<Rightarrow> NestedPart \<Rightarrow> string list" where
  "csvRow numToString toFixed2 grp layout part =
     [quoted (gr_materialKey grp),
      numToString (gr_thickness grp),
      quoted (gr_grade grp),
      numToString (sl_sheetNumber layout),
      numToString (sl_width layout),
      numToString (sl_length layout),
      quoted (np_partId part),
      numToString (orZero (np_width part)),
      numToString (orZero (np_length part)),
      numToString (np_x part),
      numToString (np_y part),
      (if np_rotated part then ''TRUE'' else ''FALSE''),
      toFixed2 (sl_wastePercentage layout)]"

text \<open>The three nested \<open>forEach\<close> loops, each pushing onto \<open>rows\<close>.\<close>

definition pushLayoutRows ::
  "(number \<Rightarrow> string) \<Rightarrow> (number \<Rightarrow> string) \<Rightarrow>
   OptimizationGroupResult \<Rightarrow> string list \<Rightarrow> SheetLayout \<Rightarrow> string list" where
  "pushLayoutRows numToString toFixed2 grp rows layout =
     foldl (\<lambda>rows part. rows @ [joinWith '','' (csvRow numToString toFixed2 grp layout part)])
       rows (sl_nestedParts layout)"

definition pushGroupRows ::
  "(number \<Rightarrow> string) \<Rightarrow> (number \<Rightarrow> string) \<Rightarrow>
   string list \<Rightarrow> OptimizationGroupResult \<Rightarrow> string list" where
  "pushGroupRows numToString toFixed2 rows grp =
     foldl (pushLayoutRows numToString toFixed2 grp) rows (gr_layouts grp)"

definition csvRows ::
  "(number \<Rightarrow> string) \<Rightarrow> (number \<Rightarrow> string) \<Rightarrow> OptimizationResult \<Rightarrow> string list" where
  "csvRows numToString toFixed2 result =
     foldl (pushGroupRows numToString toFixed2) [joinWith '','' header] (resultsByGroup result)"

definition exportToCsv ::
  "(number \<Rightarrow> string) \<Rightarrow> (number \<Rightarrow> string) \<Rightarrow> OptimizationResult \<Rightarrow> string" where
  "exportToCsv numToString toFixed2 result =
     joinWith [CHR 0x0A] (csvRows numToString toFixed2 result)"

text \<open>The nested parts of a result in result order, each with its group and its sheet.\<close>

definition nestedPartsOf ::
  "OptimizationResult \<Rightarrow> (OptimizationGroupResult \<times> SheetLayout \<times> NestedPart) list" where
  "nestedPartsOf result =
     concat (map (\<lambda>grp.
       concat (map (\<lambda>layout. map (\<lambda>part. (grp, layout, part)) (sl_nestedParts layout))
                   (gr_layouts grp)))
       (resultsByGroup result))"

text \<open>
  How a reader of CSV takes the text apart (RFC 4180): a record ends at a line feed and a
  cell at a comma, except between double quotes; the quotes are not part of the cell, and
  between quotes a doubled quote stands for one quote. The arguments are whether the
  reader is between quotes, the cell and the record read so far, and the records read.
\<close>

fun readCsvFrom :: "bool \<Rightarrow> string \<Rightarrow> string list \<Rightarrow> string list list \<Rightarrow> string \<Rightarrow> string list list" where
  "readCsvFrom q cell cells records [] = records @ [cells @ [cell]]"
| "readCsvFrom True cell cells records (c # cs) =
     (if c = CHR 0x22 then
        (case cs of
           d # ds \<Rightarrow>
             if d = CHR 0x22 then readCsvFrom True (cell @ [CHR 0x22]) cells records ds
             else readCsvFrom False cell cells records cs
         | [] \<Rightarrow> readCsvFrom False cell cells records cs)
      else readCsvFrom True (cell @ [c]) cells records cs)"
| "readCsvFrom False cell cells records (c # cs) =
     (if c = CHR 0x22 then readCsvFrom True cell cells records cs
      else if c = CHR '','' then readCsvFrom False [] (cells @ [cell]) records cs
      else if c = CHR 0x0A then readCsvFrom False [] [] (records @ [cells @ [cell]]) cs
      else readCsvFrom False (cell @ [c]) cells records cs)"

definition readCsv :: "string \<Rightarrow> string list list" where
  "readCsv text = readCsvFrom False [] [] [] text"


section \<open>Example inputs\<close>

text \<open>Concrete inputs on which the results below are run. \<open>renderExample\<close> gives the texts
  of the two thicknesses that occur, as ECMAScript writes them.\<close>

definition renderExample :: "number \<Rightarrow> string" where
  "renderExample t = (if t = 2 then ''2'' else if t = 3 then ''3'' else ''0'')"

definition partsExample :: "Part list" where
  "partsExample =
     [\<lparr>p_id = ''a'', p_width = 500, p_length = 1500, p_quantity = 20, p_thickness = 2,
       p_grade = ''SS400'', p_projectName = ''Project A''\<rparr>,
      \<lparr>p_id = ''b'', p_width = 800, p_length = 20000, p_quantity = 5, p_thickness = 3,
       p_grade = ''A36'', p_projectName = ''Project B''\<rparr>,
      \<lparr>p_id = ''c'', p_width = 1000, p_length = 2500, p_quantity = 10, p_thickness = 2,
       p_grade = ''SS400'', p_projectName = ''Project A''\<rparr>,
      \<lparr>p_id = ''d'', p_width = 500, p_length = 1500, p_quantity = 1, p_thickness = 2,
       p_grade = ''SS400'', p_projectName = ''Project C''\<rparr>]"

definition parametersExample :: UserParameters where
  "parametersExample =
     \<lparr>maxSheetLength = 18000, kerf = 5, candidateCoilWidths = ''1200, 1500'',
      rollWeightRange = \<lparr>rw_min = 4000, rw_max = 5500\<rparr>, algorithm = ''BZ12''\<rparr>"

text \<open>An answer a service may give: one group with two sheets. The first sheet is longer
  than \<open>maxSheetLength\<close>, its width is no candidate width, and it weighs 942 kg. Of its
  three nested parts the second reaches beyond the sheet and the third lies across the
  first; all three are part \<open>b\<close>, whose length exceeds \<open>maxSheetLength\<close>.\<close>

definition answerExample :: OptimizationResult where
  "answerExample =
     \<lparr>summary = \<lparr>totalParts = 4, totalPartsNested = 3, numberOfGroups = 1,
                  overallWastePercentage = 10\<rparr>,
      resultsByGroup =
        [\<lparr>gr_materialKey = ''A36_3mm'', gr_thickness = 3, gr_grade = ''A36'',
          gr_totalPartsNested = 3, gr_totalSheetsUsed = 2, gr_averageWastePercentage = 10,
          gr_layouts =
            [\<lparr>sl_sheetNumber = 1, sl_width = 2000, sl_length = 20000,
              sl_nestedParts =
                [\<lparr>np_partId = ''b'', np_x = 0, np_y = 0, np_width = 800, np_length = 20000,
                  np_rotated = False\<rparr>,
                 \<lparr>np_partId = ''b'', np_x = 1500, np_y = 0, np_width = 800, np_length = 20000,
                  np_rotated = False\<rparr>,
                 \<lparr>np_partId = ''b'', np_x = 400, np_y = 0, np_width = 800, np_length = 20000,
                  np_rotated = False\<rparr>],
              sl_wastePercentage = 20\<rparr>,
             \<lparr>sl_sheetNumber = 2, sl_width = 1500, sl_length = 2510,
              sl_nestedParts =
                [\<lparr>np_partId = ''c'', np_x = 0, np_y = 0, np_width = 1000, np_length = 2500,
                  np_rotated = False\<rparr>],
              sl_wastePercentage = 33\<rparr>]\<rparr>]\<rparr>"

text \<open>An answer that keeps every bound: thickness 20, a first sheet of 4121.25 kg with two
  parts side by side a kerf apart, and a last sheet with one rotated part.\<close>

definition answerGood :: OptimizationResult where
  "answerGood =
     \<lparr>summary = \<lparr>totalParts = 3, totalPartsNested = 3, numberOfGroups = 1,
                  overallWastePercentage = 15\<rparr>,
      resultsByGroup =
        [\<lparr>gr_materialKey = ''S355_20mm'', gr_thickness = 20, gr_grade = ''S355'',
          gr_totalPartsNested = 3, gr_totalSheetsUsed = 2, gr_averageWastePercentage = 15,
          gr_layouts =
            [\<lparr>sl_sheetNumber = 1, sl_width = 1500, sl_length = 17500,
              sl_nestedParts =
                [\<lparr>np_partId = ''p1'', np_x = 0, np_y = 0, np_width = 700, np_length = 17000,
                  np_rotated = False\<rparr>,
                 \<lparr>np_partId = ''p2'', np_x = 705, np_y = 0, np_width = 700, np_length = 17000,
                  np_rotated = False\<rparr>],
              sl_wastePercentage = 9\<rparr>,
             \<lparr>sl_sheetNumber = 2, sl_width = 1500, sl_length = 2600,
              sl_nestedParts =
                [\<lparr>np_partId = ''p3'', np_x = 0, np_y = 0, np_width = 2500, np_length = 1000,
                  np_rotated = True\<rparr>],
              sl_wastePercentage = 36\<rparr>]\<rparr>]\<rparr>"

definition serviceGood :: service where
  "serviceGood prompt = Parsed answerGood"

text \<open>Another answer: no groups at all.\<close>

definition answerEmpty :: OptimizationResult where
  "answerEmpty =
     \<lparr>summary = \<lparr>totalParts = 4, totalPartsNested = 0, numberOfGroups = 0,
                  overallWastePercentage = 0\<rparr>,
      resultsByGroup = []\<rparr>"

definition serviceExample :: service where
  "serviceExample prompt = Parsed answerExample"

definition serviceEmpty :: service where
  "serviceEmpty prompt = Parsed answerEmpty"

text \<open>A service that answers by the instruction it is given.\<close>

definition serviceByInstruction :: service where
  "serviceByInstruction prompt =
     (if pr_instruction prompt = BZ12Instruction then Parsed answerExample else Threw ''quota'')"

text \<open>A state whose first and third part break the input rules of the specification, and
  a state whose parts keep them all while the first has an empty grade.\<close>

definition stateInvalid :: AppState where
  "stateInvalid =
     \<lparr>st_parts =
        [\<lparr>p_id = ''a'', p_width = 0, p_length = 1500, p_quantity = 20, p_thickness = 2,
          p_grade = ''SS400'', p_projectName = ''Project A''\<rparr>,
         \<lparr>p_id = ''b'', p_width = 800, p_length = 13000, p_quantity = 5, p_thickness = 3,
          p_grade = ''A36'', p_projectName = ''Project B''\<rparr>,
         \<lparr>p_id = ''c'', p_width = 1000, p_length = 2500, p_quantity = 10, p_thickness = -2,
          p_grade = ''SS400'', p_projectName = ''Project A''\<rparr>],
      st_parameters = parametersExample, st_errors = Map.empty,
      st_optimizationResult = None, st_isLoading = False, st_apiError = None\<rparr>"

definition stateEmptyGrade :: AppState where
  "stateEmptyGrade =
     \<lparr>st_parts =
        [\<lparr>p_id = ''a'', p_width = 500, p_length = 1500, p_quantity = 20, p_thickness = 2,
          p_grade = [], p_projectName = ''Project A''\<rparr>,
         \<lparr>p_id = ''b'', p_width = 800, p_length = 13000, p_quantity = 5, p_thickness = 3,
          p_grade = ''A36'', p_projectName = ''Project B''\<rparr>],
      st_parameters = parametersExample, st_errors = Map.empty,
      st_optimizationResult = None, st_isLoading = False, st_apiError = None\<rparr>"

text \<open>A sheet of 1000 by 1100 in a group of thickness 3.\<close>

definition layoutSmall :: SheetLayout where
  "layoutSmall =
     \<lparr>sl_sheetNumber = 1, sl_width = 1000, sl_length = 1100, sl_nestedParts = [],
      sl_wastePercentage = 0\<rparr>"

definition groupSmall :: OptimizationGroupResult where
  "groupSmall =
     \<lparr>gr_materialKey = ''A36_3mm'', gr_thickness = 3, gr_grade = ''A36'',
      gr_totalPartsNested = 0, gr_totalSheetsUsed = 1, gr_averageWastePercentage = 0,
      gr_layouts = [layoutSmall]\<rparr>"


text \<open>
  Two results with one nested part each, for the CSV export. In the first the part id is
  \<open>P",1,"Q\<close>: a double quote, a comma, a 1, a comma and a double quote between P and Q. In
  the second it is A and B with a double quote, a line feed and a double quote between
  them. \<open>renderCsvExample\<close> and \<open>toFixed2Example\<close> write the numbers that occur as
  ECMAScript does.
\<close>

definition resultWithId :: "string \<Rightarrow> OptimizationResult" where
  "resultWithId partId =
     \<lparr>summary = \<lparr>totalParts = 1, totalPartsNested = 1, numberOfGroups = 1,
                  overallWastePercentage = 20\<rparr>,
      resultsByGroup =
        [\<lparr>gr_materialKey = ''A36_3mm'', gr_thickness = 3, gr_grade = ''A36'',
          gr_totalPartsNested = 1, gr_totalSheetsUsed = 1, gr_averageWastePercentage = 20,
          gr_layouts =
            [\<lparr>sl_sheetNumber = 1, sl_width = 1000, sl_length = 1100,
              sl_nestedParts =
                [\<lparr>np_partId = partId, np_x = 0, np_y = 0, np_width = 800, np_length = 1100,
                  np_rotated = False\<rparr>],
              sl_wastePercentage = 20\<rparr>]\<rparr>]\<rparr>"

definition idWithQuotesAndCommas :: string where
  \<open>idWithQuotesAndCommas = ''P",1,"Q''\<close>

definition idWithLineFeed :: string where
  "idWithLineFeed = ''A'' @ [CHR 0x22, CHR 0x0A, CHR 0x22] @ ''B''"

definition renderCsvExample :: "number \<Rightarrow> string" where
  "renderCsvExample n =
     (if n = 0 then ''0'' else if n = 1 then ''1'' else if n = 3 then ''3''
      else if n = 800 then ''800'' else if n = 1000 then ''1000''
      else if n = 1100 then ''1100'' else ''?'')"

definition toFixed2Example :: "number \<Rightarrow> string" where
  "toFixed2Example n = (if n = 20 then ''20.00'' else ''?'')"


section \<open>Lemmas\<close>

subsection \<open>The reduction builds one group for each key\<close>
lemma set_firstOccurrences [simp]: "set (firstOccurrences xs) = set xs"
  by (induction xs) auto

lemma distinct_firstOccurrences [simp]: "distinct (firstOccurrences xs)"
  by (induction xs) auto

lemma firstOccurrences_snoc:
  "firstOccurrences (xs @ [k]) = (if k \<in> set xs then firstOccurrences xs else firstOccurrences xs @ [k])"
  by (induction xs) auto

lemma firstOccurrences_map:
  "inj_on f (set xs) \<Longrightarrow> map f (firstOccurrences xs) = firstOccurrences (map f xs)"
proof (induction xs)
  case Nil
  then show ?case by simp
next
  case (Cons x xs)
  have inj: "inj_on f (set xs)" using Cons.prems by (simp add: inj_on_def)
  have "filter (\<lambda>y. y \<noteq> f x) (map f (firstOccurrences xs))
        = map f (filter (\<lambda>y. y \<noteq> x) (firstOccurrences xs))"
    unfolding filter_map comp_def
    using Cons.prems by (intro arg_cong[where f="map f"] filter_cong) (auto simp: inj_on_def)
  then show ?case using Cons.IH[OF inj] by simp
qed

lemma notin_map_iff: "k \<notin> set (map f ps) \<longleftrightarrow> (\<forall>q \<in> set ps. f q \<noteq> k)"
  by auto

lemma filter_key_empty: "k \<notin> set (map f ps) \<Longrightarrow> filter (\<lambda>q. f q = k) ps = []"
  by (auto simp: filter_empty_conv)

lemma filter_key_nonempty: "k \<in> set (map f ps) \<Longrightarrow> filter (\<lambda>q. f q = k) ps \<noteq> []"
  by (auto simp: filter_empty_conv)

lemma map_of_groups_None:
  "map_of (map (\<lambda>k. (k, f k)) ks) key = None \<longleftrightarrow> key \<notin> set ks"
  by (induction ks) auto

lemma pushPart_map:
  "pushPart K ap (map (\<lambda>k. (k, f k)) ks) =
     map (\<lambda>k. (k, if k = K then (f k)\<lparr>mg_parts := mg_parts (f k) @ [ap]\<rparr> else f k)) ks"
  by (induction ks) (simp_all add: pushPart_def)

lemma groupOf_other:
  "k \<noteq> materialKeyOf numToString p \<Longrightarrow>
   groupOf numToString maxLen (ps @ [p]) k = groupOf numToString maxLen ps k"
  by (simp add: groupOf_def)

lemma groupOf_new:
  assumes "materialKeyOf numToString p \<notin> set (map (materialKeyOf numToString) ps)"
  shows "groupOf numToString maxLen (ps @ [p]) (materialKeyOf numToString p) =
     \<lparr>mg_materialKey = materialKeyOf numToString p, mg_thickness = p_thickness p,
      mg_grade = p_grade p, mg_parts = [annotate maxLen p]\<rparr>"
  using filter_key_empty[OF assms] by (simp add: groupOf_def)

lemma groupOf_same:
  assumes "materialKeyOf numToString p \<in> set (map (materialKeyOf numToString) ps)"
  shows "groupOf numToString maxLen (ps @ [p]) (materialKeyOf numToString p) =
     (groupOf numToString maxLen ps (materialKeyOf numToString p))\<lparr>mg_parts :=
        mg_parts (groupOf numToString maxLen ps (materialKeyOf numToString p))
          @ [annotate maxLen p]\<rparr>"
  using filter_key_nonempty[OF assms] by (simp add: groupOf_def Let_def hd_append)

lemma foldl_reducer:
  "foldl (reducer numToString maxLen) [] parts =
     map (\<lambda>k. (k, groupOf numToString maxLen parts k))
         (firstOccurrences (map (materialKeyOf numToString) parts))"
proof (induction parts rule: rev_induct)
  case Nil
  then show ?case by simp
next
  case (snoc p ps)
  let ?K = "materialKeyOf numToString p"
  let ?ks = "firstOccurrences (map (materialKeyOf numToString) ps)"
  let ?G = "\<lambda>qs k. (k, groupOf numToString maxLen qs k)"
  show ?case
  proof (cases "?K \<in> set (map (materialKeyOf numToString) ps)")
    case False
    have old: "map (?G (ps @ [p])) ?ks = map (?G ps) ?ks"
    proof (rule map_cong[OF refl])
      fix k assume "k \<in> set ?ks"
      then have "k \<in> set (map (materialKeyOf numToString) ps)" by simp
      with False have "k \<noteq> ?K" by metis
      then show "?G (ps @ [p]) k = ?G ps k" by (simp add: groupOf_other)
    qed
    have keep: "map (\<lambda>k. (k, if k = ?K then (groupOf numToString maxLen ps k)\<lparr>mg_parts :=
             mg_parts (groupOf numToString maxLen ps k) @ [annotate maxLen p]\<rparr>
           else groupOf numToString maxLen ps k)) ?ks = map (?G ps) ?ks"
    proof (rule map_cong[OF refl])
      fix k assume "k \<in> set ?ks"
      then have "k \<in> set (map (materialKeyOf numToString) ps)" by simp
      with False have "k \<noteq> ?K" by metis
      then show "(k, if k = ?K then (groupOf numToString maxLen ps k)\<lparr>mg_parts :=
             mg_parts (groupOf numToString maxLen ps k) @ [annotate maxLen p]\<rparr>
           else groupOf numToString maxLen ps k) = ?G ps k" by simp
    qed
    have absent: "map_of (map (?G ps) ?ks) ?K = None"
      using False by (simp add: map_of_groups_None)
    have "reducer numToString maxLen (map (?G ps) ?ks) p
          = map (?G ps) ?ks @ [(?K, \<lparr>mg_materialKey = ?K, mg_thickness = p_thickness p,
                                   mg_grade = p_grade p, mg_parts = [annotate maxLen p]\<rparr>)]"
    proof -
      have "reducer numToString maxLen (map (?G ps) ?ks) p
            = pushPart ?K (annotate maxLen p) (map (?G ps) ?ks @
                [(?K, \<lparr>mg_materialKey = ?K, mg_thickness = p_thickness p,
                       mg_grade = p_grade p, mg_parts = []\<rparr>)])"
        by (simp only: reducer_def Let_def absent if_True simp_thms)
      also have "\<dots> = pushPart ?K (annotate maxLen p) (map (?G ps) ?ks) @
                [(?K, \<lparr>mg_materialKey = ?K, mg_thickness = p_thickness p,
                       mg_grade = p_grade p, mg_parts = [annotate maxLen p]\<rparr>)]"
        by (simp add: pushPart_def)
      finally show ?thesis by (simp only: pushPart_map keep)
    qed
    also have "\<dots> = map (?G (ps @ [p])) (?ks @ [?K])"
      by (simp add: old groupOf_new[OF False])
    finally show ?thesis
      using False snoc.IH by (simp add: firstOccurrences_snoc)
  next
    case True
    have upd: "map (\<lambda>k. (k, if k = ?K then (groupOf numToString maxLen ps k)\<lparr>mg_parts :=
             mg_parts (groupOf numToString maxLen ps k) @ [annotate maxLen p]\<rparr>
           else groupOf numToString maxLen ps k)) ?ks = map (?G (ps @ [p])) ?ks"
    proof (rule map_cong[OF refl])
      fix k 
      show "(k, if k = ?K then (groupOf numToString maxLen ps k)\<lparr>mg_parts :=
             mg_parts (groupOf numToString maxLen ps k) @ [annotate maxLen p]\<rparr>
           else groupOf numToString maxLen ps k) = ?G (ps @ [p]) k"
        by (cases "k = ?K") (simp_all add: groupOf_same[OF True] groupOf_other)
    qed
    have present: "map_of (map (?G ps) ?ks) ?K \<noteq> None"
      using True by (simp add: map_of_groups_None)
    have "reducer numToString maxLen (map (?G ps) ?ks) p = map (?G (ps @ [p])) ?ks"
      by (simp only: reducer_def Let_def present if_False pushPart_map upd)
    then show ?thesis
      using True snoc.IH by (simp add: firstOccurrences_snoc)
  qed
qed

lemma preprocessData_groups:
  "preprocessData numToString parts maxLen =
     map (\<lambda>k. sortGroup (groupOf numToString maxLen parts k))
         (firstOccurrences (map (materialKeyOf numToString) parts))"
  by (simp add: preprocessData_def foldl_reducer comp_def)


subsection \<open>The group key determines grade and thickness\<close>

lemma split_at_first:
  "c \<notin> set xs \<Longrightarrow> c \<notin> set xs' \<Longrightarrow> xs @ c # ys = xs' @ c # ys' \<Longrightarrow> xs = xs' \<and> ys = ys'"
proof (induction xs arbitrary: xs')
  case Nil
  then show ?case by (cases xs') auto
next
  case (Cons x xs)
  then show ?case by (cases xs') auto
qed

lemma key_text_inject:
  assumes eq: "g1 @ ''_'' @ s1 @ ''mm'' = g2 @ ''_'' @ s2 @ ''mm''"
    and s1: "CHR ''_'' \<notin> set s1" and s2: "CHR ''_'' \<notin> set s2"
  shows "g1 = g2 \<and> s1 = s2"
proof -
  from eq have "(g1 @ ''_'' @ s1) @ ''mm'' = (g2 @ ''_'' @ s2) @ ''mm''" by simp
  then have "g1 @ ''_'' @ s1 = g2 @ ''_'' @ s2" by (simp only: append_same_eq)
  then have "rev (g1 @ ''_'' @ s1) = rev (g2 @ ''_'' @ s2)" by simp
  then have "rev s1 @ CHR ''_'' # rev g1 = rev s2 @ CHR ''_'' # rev g2" by simp
  moreover have "CHR ''_'' \<notin> set (rev s1)" "CHR ''_'' \<notin> set (rev s2)" using s1 s2 by simp_all
  ultimately have "rev s1 = rev s2 \<and> rev g1 = rev g2" by (metis split_at_first)
  then show ?thesis by simp
qed

lemma materialKeyOf_eq_iff:
  assumes "rendersFaithfully numToString S" "t1 \<in> S" "t2 \<in> S"
    and "p_thickness p = t1" "p_thickness q = t2"
  shows "materialKeyOf numToString p = materialKeyOf numToString q
         \<longleftrightarrow> p_grade p = p_grade q \<and> p_thickness p = p_thickness q"
proof
  assume "materialKeyOf numToString p = materialKeyOf numToString q"
  then have "p_grade p @ ''_'' @ numToString t1 @ ''mm'' = p_grade q @ ''_'' @ numToString t2 @ ''mm''"
    using assms(4,5) by (simp add: materialKeyOf_def)
  moreover have "CHR ''_'' \<notin> set (numToString t1)" "CHR ''_'' \<notin> set (numToString t2)"
    using assms(1-3) by (simp_all add: rendersFaithfully_def)
  ultimately have "p_grade p = p_grade q \<and> numToString t1 = numToString t2"
    by (rule key_text_inject)
  moreover have "inj_on numToString S" using assms(1) by (simp add: rendersFaithfully_def)
  ultimately show "p_grade p = p_grade q \<and> p_thickness p = p_thickness q"
    using assms(2-5) by (simp add: inj_on_def)
next
  assume "p_grade p = p_grade q \<and> p_thickness p = p_thickness q"
  then show "materialKeyOf numToString p = materialKeyOf numToString q"
    by (simp add: materialKeyOf_def)
qed

subsection \<open>Insertion sort by a comparator\<close>

lemma mset_insertBy: "mset (insertBy cmp x xs) = add_mset x (mset xs)"
  by (induction xs) simp_all

lemma mset_sortBy: "mset (sortBy cmp xs) = mset xs"
  by (induction xs) (simp_all add: sortBy_def mset_insertBy)

lemma set_sortBy: "set (sortBy cmp xs) = set xs"
  by (metis mset_sortBy set_mset_mset)

lemma set_insertBy: "set (insertBy cmp x xs) = insert x (set xs)"
  by (metis mset_insertBy set_mset_mset set_mset_add_mset_insert)

lemma sorted_insertBy:
  assumes total: "\<And>a b. cmp a b \<le> 0 \<or> cmp b a \<le> 0"
    and trans: "\<And>a b c. cmp a b \<le> 0 \<Longrightarrow> cmp b c \<le> 0 \<Longrightarrow> cmp a c \<le> 0"
  shows "sorted_wrt (\<lambda>a b. cmp a b \<le> 0) xs \<Longrightarrow> sorted_wrt (\<lambda>a b. cmp a b \<le> 0) (insertBy cmp x xs)"
proof (induction xs)
  case Nil
  then show ?case by simp
next
  case (Cons y ys)
  show ?case
  proof (cases "cmp x y \<le> 0")
    case True
    then have "\<forall>z \<in> set ys. cmp x z \<le> 0" using Cons.prems trans by auto
    then show ?thesis using True Cons.prems by simp
  next
    case False
    then have "cmp y x \<le> 0" using total by blast
    then show ?thesis using False Cons by (simp add: set_insertBy)
  qed
qed

lemma sorted_sortBy:
  assumes total: "\<And>a b. cmp a b \<le> 0 \<or> cmp b a \<le> 0"
    and trans: "\<And>a b c. cmp a b \<le> 0 \<Longrightarrow> cmp b c \<le> 0 \<Longrightarrow> cmp a c \<le> 0"
  shows "sorted_wrt (\<lambda>a b. cmp a b \<le> 0) (sortBy cmp xs)"
proof (induction xs)
  case Nil
  then show ?case by (simp add: sortBy_def)
next
  case (Cons x xs)
  have "sortBy cmp (x # xs) = insertBy cmp x (sortBy cmp xs)" by (simp add: sortBy_def)
  then show ?case using sorted_insertBy[of cmp, OF total trans Cons.IH] by simp
qed

lemma filter_insertBy_other: "\<not> P x \<Longrightarrow> filter P (insertBy cmp x xs) = filter P xs"
  by (induction xs) simp_all

lemma filter_insertBy_tied:
  assumes tie: "\<And>y. P y \<Longrightarrow> cmp x y \<le> 0"
  shows "P x \<Longrightarrow> filter P (insertBy cmp x xs) = x # filter P xs"
proof (induction xs)
  case Nil
  then show ?case by simp
next
  case (Cons y ys)
  show ?case
  proof (cases "cmp x y \<le> 0")
    case True
    then show ?thesis using Cons.prems by simp
  next
    case False
    then have "\<not> P y" using tie by blast
    then show ?thesis using False Cons by simp
  qed
qed


subsection \<open>The comparator of the parts\<close>

lemma compareParts_le_iff: "compareParts a b \<le> 0 \<longleftrightarrow> spec_precedes a b"
  unfolding compareParts_def spec_precedes_def by (simp split: if_splits) linarith

lemma compareParts_total: "compareParts a b \<le> 0 \<or> compareParts b a \<le> 0"
  unfolding compareParts_le_iff spec_precedes_def by linarith

lemma compareParts_trans:
  "compareParts a b \<le> 0 \<Longrightarrow> compareParts b c \<le> 0 \<Longrightarrow> compareParts a c \<le> 0"
  unfolding compareParts_le_iff spec_precedes_def by linarith

lemma compareParts_tied: "sortKey a = sortKey b \<Longrightarrow> compareParts a b \<le> 0"
  unfolding compareParts_le_iff spec_precedes_def sortKey_def by simp

lemma sortBy_stable:
  "filter (\<lambda>y. sortKey y = k) (sortBy compareParts xs) = filter (\<lambda>y. sortKey y = k) xs"
proof (induction xs)
  case Nil
  then show ?case by (simp add: sortBy_def)
next
  case (Cons x xs)
  have step: "sortBy compareParts (x # xs) = insertBy compareParts x (sortBy compareParts xs)"
    by (simp add: sortBy_def)
  show ?case
  proof (cases "sortKey x = k")
    case True
    have "filter (\<lambda>y. sortKey y = k) (insertBy compareParts x (sortBy compareParts xs))
          = x # filter (\<lambda>y. sortKey y = k) (sortBy compareParts xs)"
    proof (rule filter_insertBy_tied)
      fix y assume "sortKey y = k"
      then show "compareParts x y \<le> 0" using True by (simp add: compareParts_tied)
    qed (rule True)
    then show ?thesis using True Cons.IH by (simp add: step)
  next
    case False
    then show ?thesis using Cons.IH by (simp add: step filter_insertBy_other)
  qed
qed

lemma sorted_sortBy_compareParts: "sorted_wrt spec_precedes (sortBy compareParts xs)"
proof -
  have "sorted_wrt (\<lambda>a b. compareParts a b \<le> 0) (sortBy compareParts xs)"
    by (rule sorted_sortBy[OF compareParts_total compareParts_trans])
  then show ?thesis by (simp add: compareParts_le_iff)
qed


subsection \<open>The groups of preprocessData\<close>

lemma hd_filter_member: "filter P xs \<noteq> [] \<Longrightarrow> hd (filter P xs) \<in> set xs \<and> P (hd (filter P xs))"
  using hd_in_set[of "filter P xs"] by simp

lemma materialKeyOf_annotate [simp]:
  "materialKeyOf numToString (annotate maxLen p) = materialKeyOf numToString p"
  by (simp add: materialKeyOf_def annotate_def)

lemma mg_parts_sortGroup: "mg_parts (sortGroup g) = sortBy compareParts (mg_parts g)"
  by (simp add: sortGroup_def)

lemma sortGroup_fields [simp]:
  "mg_materialKey (sortGroup g) = mg_materialKey g"
  "mg_grade (sortGroup g) = mg_grade g"
  "mg_thickness (sortGroup g) = mg_thickness g"
  by (simp_all add: sortGroup_def)

lemma groupOf_fields [simp]:
  "mg_materialKey (groupOf numToString maxLen parts k) = k"
  "mg_parts (groupOf numToString maxLen parts k) =
     map (annotate maxLen) (filter (\<lambda>p. materialKeyOf numToString p = k) parts)"
  by (simp_all add: groupOf_def Let_def)

lemma groupOf_representative:
  assumes "k \<in> set (map (materialKeyOf numToString) parts)"
  shows "\<exists>q \<in> set parts. materialKeyOf numToString q = k \<and>
           mg_grade (groupOf numToString maxLen parts k) = p_grade q \<and>
           mg_thickness (groupOf numToString maxLen parts k) = p_thickness q"
proof -
  let ?ms = "filter (\<lambda>p. materialKeyOf numToString p = k) parts"
  have "?ms \<noteq> []" using assms by (rule filter_key_nonempty)
  then have "hd ?ms \<in> set parts \<and> materialKeyOf numToString (hd ?ms) = k"
    by (rule hd_filter_member)
  moreover have "mg_grade (groupOf numToString maxLen parts k) = p_grade (hd ?ms)"
    "mg_thickness (groupOf numToString maxLen parts k) = p_thickness (hd ?ms)"
    by (simp_all add: groupOf_def Let_def)
  ultimately show ?thesis by metis
qed

lemma preprocessData_member:
  assumes "g \<in> set (preprocessData numToString parts maxLen)"
  shows "mg_materialKey g \<in> set (map (materialKeyOf numToString) parts) \<and>
         g = sortGroup (groupOf numToString maxLen parts (mg_materialKey g))"
proof -
  from assms obtain k where k: "k \<in> set (map (materialKeyOf numToString) parts)"
    and g: "g = sortGroup (groupOf numToString maxLen parts k)"
    unfolding preprocessData_groups by (metis (no_types, lifting) imageE list.set_map set_firstOccurrences)
  then have "mg_materialKey g = k" by simp
  with k g show ?thesis by simp
qed

lemma preprocessData_parts:
  assumes "g \<in> set (preprocessData numToString parts maxLen)"
  shows "mg_parts g = sortBy compareParts (map (annotate maxLen)
           (filter (\<lambda>p. materialKeyOf numToString p = mg_materialKey g) parts))"
proof -
  have "g = sortGroup (groupOf numToString maxLen parts (mg_materialKey g))"
    using preprocessData_member[OF assms] by simp
  then have "mg_parts g = mg_parts (sortGroup (groupOf numToString maxLen parts (mg_materialKey g)))"
    by simp
  then show ?thesis by (simp only: mg_parts_sortGroup groupOf_fields)
qed

lemma sum_list_singleton_key:
  fixes A :: "'a multiset"
  shows "distinct ks \<Longrightarrow> (\<Sum>k\<leftarrow>ks. if c = k then A else {#}) = (if c \<in> set ks then A else {#})"
  by (induction ks) auto

lemma mset_partition_by_key:
  "distinct ks \<Longrightarrow> set (map f xs) \<subseteq> set ks \<Longrightarrow>
   (\<Sum>k\<leftarrow>ks. mset (filter (\<lambda>x. f x = k) xs)) = mset xs"
proof (induction xs)
  case Nil
  then show ?case by (induction ks) simp_all
next
  case (Cons x xs)
  have "(\<Sum>k\<leftarrow>ks. mset (filter (\<lambda>y. f y = k) (x # xs)))
        = (\<Sum>k\<leftarrow>ks. (if f x = k then {#x#} else {#}) + mset (filter (\<lambda>y. f y = k) xs))"
    by (intro arg_cong[where f=sum_list] map_cong refl) simp
  also have "\<dots> = (\<Sum>k\<leftarrow>ks. if f x = k then {#x#} else {#})
                  + (\<Sum>k\<leftarrow>ks. mset (filter (\<lambda>y. f y = k) xs))"
    by (simp add: sum_list_addf)
  also have "\<dots> = {#x#} + mset xs"
    using Cons by (simp add: sum_list_singleton_key)
  finally show ?case by simp
qed

lemma preprocessData_all_parts:
  "mset (concat (map mg_parts (preprocessData numToString parts maxLen)))
     = mset (map (annotate maxLen) parts)"
proof -
  let ?ks = "firstOccurrences (map (materialKeyOf numToString) parts)"
  let ?as = "map (annotate maxLen) parts"
  have "mset (concat (map mg_parts (preprocessData numToString parts maxLen)))
        = (\<Sum>k\<leftarrow>?ks. mset (mg_parts (sortGroup (groupOf numToString maxLen parts k))))"
    by (simp add: mset_concat preprocessData_groups comp_def)
  also have "\<dots> = (\<Sum>k\<leftarrow>?ks. mset (filter (\<lambda>a. materialKeyOf numToString a = k) ?as))"
    by (simp add: mg_parts_sortGroup mset_sortBy filter_map comp_def del: mset_map)
  also have "\<dots> = mset ?as"
    by (rule mset_partition_by_key) (simp_all add: comp_def)
  finally show ?thesis .
qed

lemma preprocessData_has_part:
  assumes "p \<in> set ps"
  shows "\<exists>g \<in> set (preprocessData numToString ps maxLen).
           mg_materialKey g = materialKeyOf numToString p \<and> annotate maxLen p \<in> set (mg_parts g)"
proof -
  let ?g = "sortGroup (groupOf numToString maxLen ps (materialKeyOf numToString p))"
  have "materialKeyOf numToString p \<in> set (firstOccurrences (map (materialKeyOf numToString) ps))"
    using assms by simp
  then have "?g \<in> set (preprocessData numToString ps maxLen)"
    unfolding preprocessData_groups by (simp only: set_map) (rule imageI)
  moreover have "annotate maxLen p \<in> set (mg_parts ?g)"
    using assms by (simp add: mg_parts_sortGroup set_sortBy)
  moreover have "mg_materialKey ?g = materialKeyOf numToString p" by simp
  ultimately show ?thesis by metis
qed

lemma preprocessData_annotated:
  assumes "g \<in> set (preprocessData numToString ps maxLen)" and "a \<in> set (mg_parts g)"
  shows "\<exists>p \<in> set ps. a = annotate maxLen p"
proof -
  have "a \<in> set (map (annotate maxLen)
           (filter (\<lambda>p. materialKeyOf numToString p = mg_materialKey g) ps))"
    using assms(2) unfolding preprocessData_parts[OF assms(1)] set_sortBy .
  then show ?thesis by (simp add: image_iff) metis
qed

lemma preprocessData_partitions_annotated:
  assumes faithful: "rendersFaithfully numToString (p_thickness ` set ps)"
  shows "map (\<lambda>g. (mg_grade g, mg_thickness g)) (preprocessData numToString ps maxLen)
           = firstOccurrences (map (\<lambda>p. (p_grade p, p_thickness p)) ps)
       \<and> (\<forall>g \<in> set (preprocessData numToString ps maxLen).
            mg_materialKey g = mg_grade g @ ''_'' @ numToString (mg_thickness g) @ ''mm'' \<and>
            mset (mg_parts g) = mset (map (annotate maxLen)
               (filter (\<lambda>p. p_grade p = mg_grade g \<and> p_thickness p = mg_thickness g) ps)) \<and>
            (\<forall>a \<in> set (mg_parts g). area a = p_width a * p_length a \<and>
               exceedsSheetLength a = (p_length a > maxLen)))
       \<and> mset (concat (map mg_parts (preprocessData numToString ps maxLen)))
           = mset (map (annotate maxLen) ps)"
proof -
  let ?key = "materialKeyOf numToString"
  let ?pair = "\<lambda>p::Part. (p_grade p, p_thickness p)"
  let ?G = "\<lambda>k. sortGroup (groupOf numToString maxLen ps k)"
  let ?h = "\<lambda>k. (mg_grade (?G k), mg_thickness (?G k))"
  have key_iff: "?key p = ?key q \<longleftrightarrow> ?pair p = ?pair q" if "p \<in> set ps" "q \<in> set ps" for p q
    using materialKeyOf_eq_iff[OF faithful, of "p_thickness p" "p_thickness q" p q] that by simp
  have h_key: "?h (?key p) = ?pair p" if p: "p \<in> set ps" for p
  proof -
    have "?key p \<in> set (map ?key ps)" using p by simp
    then obtain q where q: "q \<in> set ps" "?key q = ?key p"
      and f: "mg_grade (groupOf numToString maxLen ps (?key p)) = p_grade q"
             "mg_thickness (groupOf numToString maxLen ps (?key p)) = p_thickness q"
      using groupOf_representative[of "?key p" numToString ps maxLen] by metis
    have "?pair q = ?pair p" using key_iff[OF q(1) p] q(2) by simp
    then show ?thesis using f by simp
  qed
  have order: "map (\<lambda>g. (mg_grade g, mg_thickness g)) (preprocessData numToString ps maxLen)
           = firstOccurrences (map ?pair ps)"
  proof -
    have inj: "inj_on ?h (set (map ?key ps))"
    proof (rule inj_onI)
      fix k1 k2 assume "k1 \<in> set (map ?key ps)" "k2 \<in> set (map ?key ps)" and eq: "?h k1 = ?h k2"
      then obtain p1 p2 where p: "p1 \<in> set ps" "k1 = ?key p1" "p2 \<in> set ps" "k2 = ?key p2"
        by (metis (no_types, lifting) imageE list.set_map)
      then have "?pair p1 = ?pair p2" using eq h_key by metis
      then show "k1 = k2" using key_iff[OF p(1) p(3)] p(2,4) by simp
    qed
    have "map (\<lambda>g. (mg_grade g, mg_thickness g)) (preprocessData numToString ps maxLen)
          = map ?h (firstOccurrences (map ?key ps))"
      by (simp add: preprocessData_groups comp_def)
    also have "\<dots> = firstOccurrences (map ?h (map ?key ps))"
      by (rule firstOccurrences_map[OF inj])
    also have "map ?h (map ?key ps) = map ?pair ps"
      unfolding map_map comp_def by (rule map_cong[OF refl]) (rule h_key)
    finally show ?thesis .
  qed
  have groups: "mg_materialKey g = mg_grade g @ ''_'' @ numToString (mg_thickness g) @ ''mm'' \<and>
            mset (mg_parts g) = mset (map (annotate maxLen)
               (filter (\<lambda>p. p_grade p = mg_grade g \<and> p_thickness p = mg_thickness g) ps)) \<and>
            (\<forall>a \<in> set (mg_parts g). area a = p_width a * p_length a \<and>
               exceedsSheetLength a = (p_length a > maxLen))"
    if g: "g \<in> set (preprocessData numToString ps maxLen)" for g
  proof -
    from preprocessData_member[OF g]
    obtain p where p: "p \<in> set ps" "mg_materialKey g = ?key p" and gG: "g = ?G (mg_materialKey g)"
      by (metis (no_types, lifting) imageE list.set_map)
    have pair_g: "(mg_grade g, mg_thickness g) = ?pair p"
      using h_key[OF p(1)] gG p(2) by metis
    have key_g: "mg_materialKey g = mg_grade g @ ''_'' @ numToString (mg_thickness g) @ ''mm''"
      using pair_g p(2) by (simp add: materialKeyOf_def)
    have "filter (\<lambda>q. ?key q = mg_materialKey g) ps
          = filter (\<lambda>q. p_grade q = mg_grade g \<and> p_thickness q = mg_thickness g) ps"
    proof (rule filter_cong[OF refl])
      fix q assume "q \<in> set ps"
      then have "?key q = ?key p \<longleftrightarrow> ?pair q = ?pair p" using key_iff p(1) by simp
      then show "(?key q = mg_materialKey g) = (p_grade q = mg_grade g \<and> p_thickness q = mg_thickness g)"
        using pair_g p(2) by simp
    qed
    then have parts_g: "mg_parts g = sortBy compareParts (map (annotate maxLen)
          (filter (\<lambda>q. p_grade q = mg_grade g \<and> p_thickness q = mg_thickness g) ps))"
      using preprocessData_parts[OF g] by simp
    have ann: "area a = p_width a * p_length a \<and> exceedsSheetLength a = (p_length a > maxLen)"
      if "a \<in> set (mg_parts g)" for a
    proof -
      from that obtain q where "a = annotate maxLen q"
        unfolding parts_g set_sortBy by (metis (no_types, lifting) imageE list.set_map)
      then show ?thesis by (simp add: annotate_def)
    qed
    show ?thesis using key_g parts_g ann by (simp add: mset_sortBy del: mset_map)
  qed
  show ?thesis using order groups preprocessData_all_parts by blast
qed

lemma truncate_annotate: "Part.truncate (annotate maxLen p) = p"
  by (simp add: annotate_def Part.truncate_def)

lemma map_truncate_annotate: "map Part.truncate (map (annotate maxLen) xs) = xs"
  by (induction xs) (simp_all add: truncate_annotate)

lemma preprocessData_group_pair:
  assumes faithful: "rendersFaithfully numToString (p_thickness ` set ps)"
    and p: "p \<in> set ps"
    and g: "g \<in> set (preprocessData numToString ps maxLen)"
    and k: "mg_materialKey g = materialKeyOf numToString p"
  shows "mg_grade g = p_grade p \<and> mg_thickness g = p_thickness p"
proof -
  note ann = preprocessData_partitions_annotated[OF faithful, of maxLen]
  have "(mg_grade g, mg_thickness g)
          \<in> set (map (\<lambda>g. (mg_grade g, mg_thickness g)) (preprocessData numToString ps maxLen))"
    using g by simp
  then have "(mg_grade g, mg_thickness g) \<in> set (map (\<lambda>p. (p_grade p, p_thickness p)) ps)"
    using ann[THEN conjunct1] by simp
  then obtain q where q: "q \<in> set ps" "p_grade q = mg_grade g" "p_thickness q = mg_thickness g"
    by (simp add: image_iff) metis
  have "mg_materialKey g = mg_grade g @ ''_'' @ numToString (mg_thickness g) @ ''mm''"
    using ann[THEN conjunct2, THEN conjunct1, THEN bspec, OF g] by simp
  then have "materialKeyOf numToString q = materialKeyOf numToString p"
    using q k by (simp add: materialKeyOf_def)
  then have "p_grade q = p_grade p \<and> p_thickness q = p_thickness p"
    using materialKeyOf_eq_iff[OF faithful, of "p_thickness q" "p_thickness p" q p] q(1) p by simp
  then show ?thesis using q by simp
qed

subsection \<open>The optimization call\<close>

lemma runOptimization_Inr:
  "runOptimization generateContent numToString ps params = Inr result \<longleftrightarrow>
   generateContent (buildPrompt numToString ps params) = Parsed result"
  by (simp add: runOptimization_def split: outcome.splits)

subsection \<open>Validation\<close>

lemma errorCount_pos_iff:
  "errorCount (checkPart p) > 0 \<longleftrightarrow>
     p_width p \<le> 0 \<or> p_length p \<le> 0 \<or> \<not> isInteger (p_quantity p) \<or> p_quantity p \<le> 0 \<or>
     p_thickness p \<le> 0 \<or> p_grade p = [] \<or> p_projectName p = []"
  by (simp add: errorCount_def checkPart_def)

lemma spec_inputInvalid_counted: "spec_inputInvalid p \<Longrightarrow> errorCount (checkPart p) > 0"
  unfolding errorCount_pos_iff spec_inputInvalid_def by (metis not_le)

lemma validateStep_pair:
  "validateStep (newErrors, hasErrors) part =
     (if errorCount (checkPart part) > 0
      then (newErrors(p_id part \<mapsto> checkPart part), True)
      else (newErrors, hasErrors))"
  by (simp add: validateStep_def)

lemma dom_if_update: "dom (\<lambda>a. if a = k then Some v else m a) = insert k (dom m)"
  by (auto simp: dom_def)

lemma foldl_validateStep:
  "foldl validateStep (newErrors, hasErrors) ps = (E, h) \<Longrightarrow>
     dom E = dom newErrors \<union> set (map p_id (filter (\<lambda>p. errorCount (checkPart p) > 0) ps)) \<and>
     (h \<longleftrightarrow> hasErrors \<or> filter (\<lambda>p. errorCount (checkPart p) > 0) ps \<noteq> [])"
proof (induction ps arbitrary: newErrors hasErrors)
  case Nil
  then show ?case by simp
next
  case (Cons q qs)
  show ?case
  proof (cases "errorCount (checkPart q) > 0")
    case True
    then have "foldl validateStep (newErrors(p_id q \<mapsto> checkPart q), True) qs = (E, h)"
      using Cons.prems by (simp add: validateStep_pair)
    from Cons.IH[OF this] True show ?thesis by (simp add: dom_if_update)
  next
    case False
    then have "foldl validateStep (newErrors, hasErrors) qs = (E, h)"
      using Cons.prems by (simp add: validateStep_pair)
    from Cons.IH[OF this] False show ?thesis by simp
  qed
qed

lemma validateParts_result:
  "snd (validateParts st) \<longleftrightarrow> filter (\<lambda>p. errorCount (checkPart p) > 0) (st_parts st) = []"
  "dom (st_errors (fst (validateParts st)))
     = set (map p_id (filter (\<lambda>p. errorCount (checkPart p) > 0) (st_parts st)))"
proof -
  obtain E h where f: "foldl validateStep (Map.empty, False) (st_parts st) = (E, h)"
    by (cases "foldl validateStep (Map.empty, False) (st_parts st)")
  from foldl_validateStep[OF f]
  have d: "dom E = set (map p_id (filter (\<lambda>p. errorCount (checkPart p) > 0) (st_parts st)))"
    and hh: "h \<longleftrightarrow> filter (\<lambda>p. errorCount (checkPart p) > 0) (st_parts st) \<noteq> []" by simp_all
  show "snd (validateParts st) \<longleftrightarrow> filter (\<lambda>p. errorCount (checkPart p) > 0) (st_parts st) = []"
    using hh by (simp add: validateParts_def f)
  show "dom (st_errors (fst (validateParts st)))
     = set (map p_id (filter (\<lambda>p. errorCount (checkPart p) > 0) (st_parts st)))"
    using d by (simp add: validateParts_def f)
qed

lemma validateParts_fails:
  assumes "q \<in> set (st_parts st)" "errorCount (checkPart q) > 0"
  shows "\<not> snd (validateParts st)"
    and "p_id q \<in> dom (st_errors (fst (validateParts st)))"
proof -
  have "q \<in> set (filter (\<lambda>p. errorCount (checkPart p) > 0) (st_parts st))"
    using assms by simp
  then show "\<not> snd (validateParts st)" "p_id q \<in> dom (st_errors (fst (validateParts st)))"
    unfolding validateParts_result by (metis empty_iff list.set(1), metis imageI list.set_map)
qed

lemma handleRunOptimization_rejected:
  assumes "\<not> snd (validateParts st)"
  shows "handleRunOptimization generateContent numToString st
           = (fst (validateParts st))\<lparr>st_apiError := Some FixTableErrors\<rparr>"
proof -
  obtain st1 ok where v: "validateParts st = (st1, ok)" by (cases "validateParts st")
  then have "\<not> ok" using assms by simp
  then show ?thesis by (simp add: handleRunOptimization_def v)
qed

lemma validateParts_keeps:
  "st_optimizationResult (fst (validateParts st)) = st_optimizationResult st"
  "st_isLoading (fst (validateParts st)) = st_isLoading st"
  by (simp_all add: validateParts_def split: prod.splits)

subsection \<open>The rows of the CSV export\<close>

lemma foldl_push: "foldl (\<lambda>rows x. rows @ [f x]) rows xs = rows @ map f xs"
  by (induction xs arbitrary: rows) simp_all

lemma pushLayoutRows_eq:
  "pushLayoutRows numToString toFixed2 grp rows layout =
     rows @ map (\<lambda>part. joinWith '','' (csvRow numToString toFixed2 grp layout part))
              (sl_nestedParts layout)"
  by (simp add: pushLayoutRows_def foldl_push)

lemma foldl_append_each: "foldl (\<lambda>rows x. rows @ g x) rows xs = rows @ concat (map g xs)"
  by (induction xs arbitrary: rows) simp_all

lemma pushGroupRows_eq:
  "pushGroupRows numToString toFixed2 rows grp =
     rows @ concat (map (\<lambda>layout.
        map (\<lambda>part. joinWith '','' (csvRow numToString toFixed2 grp layout part))
            (sl_nestedParts layout)) (gr_layouts grp))"
proof -
  have "pushLayoutRows numToString toFixed2 grp =
        (\<lambda>rows layout. rows @ map (\<lambda>part. joinWith '','' (csvRow numToString toFixed2 grp layout part))
              (sl_nestedParts layout))"
    by (intro ext) (rule pushLayoutRows_eq)
  then show ?thesis by (simp add: pushGroupRows_def foldl_append_each)
qed

lemma csvRows_eq:
  "csvRows numToString toFixed2 result =
     joinWith '','' header #
     map (\<lambda>(grp, layout, part). joinWith '','' (csvRow numToString toFixed2 grp layout part))
         (nestedPartsOf result)"
proof -
  have "pushGroupRows numToString toFixed2 =
        (\<lambda>rows grp. rows @ concat (map (\<lambda>layout.
        map (\<lambda>part. joinWith '','' (csvRow numToString toFixed2 grp layout part))
            (sl_nestedParts layout)) (gr_layouts grp)))"
    by (intro ext) (rule pushGroupRows_eq)
  then show ?thesis
    by (simp add: csvRows_def foldl_append_each nestedPartsOf_def map_concat comp_def)
qed

lemma orZero_id: "orZero n = n"
  by (simp add: orZero_def)

lemma length_nestedPartsOf:
  "length (nestedPartsOf result) =
     (\<Sum>grp\<leftarrow>resultsByGroup result. \<Sum>layout\<leftarrow>gr_layouts grp. length (sl_nestedParts layout))"
  by (simp add: nestedPartsOf_def length_concat comp_def)

lemma csvRows_one_per_nested_part:
  "csvRows numToString toFixed2 result =
     joinWith '','' header #
     map (\<lambda>(grp, layout, part). joinWith '',''
            [quoted (gr_materialKey grp), numToString (gr_thickness grp), quoted (gr_grade grp),
             numToString (sl_sheetNumber layout), numToString (sl_width layout),
             numToString (sl_length layout),
             quoted (np_partId part), numToString (np_width part), numToString (np_length part),
             numToString (np_x part), numToString (np_y part),
             (if np_rotated part then ''TRUE'' else ''FALSE''),
             toFixed2 (sl_wastePercentage layout)])
         (nestedPartsOf result) \<and>
   length (csvRows numToString toFixed2 result) =
     1 + (\<Sum>grp\<leftarrow>resultsByGroup result. \<Sum>layout\<leftarrow>gr_layouts grp.
            length (sl_nestedParts layout)) \<and>
   length header = 13 \<and>
   exportToCsv numToString toFixed2 result =
     joinWith [CHR 0x0A] (csvRows numToString toFixed2 result)"
  by (simp add: csvRows_eq csvRow_def orZero_id length_nestedPartsOf exportToCsv_def header_def)

subsection \<open>Rounding to a double\<close>

lemma roundHalfEven_error: "\<bar>of_int (roundHalfEven q) - q\<bar> \<le> 1 / 2"
proof -
  have "of_int \<lfloor>q\<rfloor> \<le> q" "q < of_int \<lfloor>q\<rfloor> + 1" by linarith+
  then show ?thesis
    by (auto simp: roundHalfEven_def Let_def)
qed

lemma pos_rat_bounds:
  assumes "0 < y" and q: "quotient_of y = (a, b)"
  shows "2 powi (bitlen a - bitlen b - 1) \<le> y" and "y < 2 powi (bitlen a - bitlen b + 1)"
proof -
  have b: "0 < b" using q by (rule quotient_of_denom_pos)
  have y: "y = of_int a / of_int b" using q by (rule quotient_of_div)
  then have a: "0 < a" using assms(1) b by (simp add: zero_less_divide_iff)
  from bitlen_bounds[OF a] have a1: "(2::rat) ^ nat (bitlen a - 1) \<le> of_int a"
    and a2: "of_int a < (2::rat) ^ nat (bitlen a)"
    by (metis of_int_le_iff of_int_numeral of_int_power, metis of_int_less_iff of_int_numeral of_int_power)
  from bitlen_bounds[OF b] have b1: "(2::rat) ^ nat (bitlen b - 1) \<le> of_int b"
    and b2: "of_int b < (2::rat) ^ nat (bitlen b)"
    by (metis of_int_le_iff of_int_numeral of_int_power, metis of_int_less_iff of_int_numeral of_int_power)
  have la: "1 \<le> bitlen a" and lb: "1 \<le> bitlen b"
    using a b bitlen_eq_zero_iff[of a] bitlen_eq_zero_iff[of b] bitlen_nonneg[of a] bitlen_nonneg[of b]
    by linarith+
  have pa1: "(2::rat) powi (bitlen a - 1) \<le> of_int a" using a1 la by (simp add: power_int_def)
  have pa2: "of_int a < (2::rat) powi (bitlen a)" using a2 la by (simp add: power_int_def)
  have pb1: "(2::rat) powi (bitlen b - 1) \<le> of_int b" using b1 lb by (simp add: power_int_def)
  have pb2: "of_int b < (2::rat) powi (bitlen b)" using b2 lb by (simp add: power_int_def)
  have "(2::rat) powi (bitlen a - bitlen b - 1) = 2 powi (bitlen a - 1) / 2 powi (bitlen b)"
    using power_int_diff[of "2::rat" "bitlen a - 1" "bitlen b"] by (simp add: algebra_simps)
  also have "\<dots> \<le> of_int a / of_int b"
    using pa1 pb2 a b by (intro frac_le) simp_all
  finally show "2 powi (bitlen a - bitlen b - 1) \<le> y" by (simp add: y)
  have "of_int a / of_int b < (2::rat) powi (bitlen a) / 2 powi (bitlen b - 1)"
    using pa2 pb1 a b by (intro frac_less) simp_all
  also have "\<dots> = (2::rat) powi (bitlen a - bitlen b + 1)"
    using power_int_diff[of "2::rat" "bitlen a" "bitlen b - 1"] by (simp add: algebra_simps)
  finally show "y < 2 powi (bitlen a - bitlen b + 1)" by (simp add: y)
qed

lemma binaryExponent_bounds:
  assumes "x \<noteq> 0"
  shows "2 powi (binaryExponent x) \<le> \<bar>x\<bar>" and "\<bar>x\<bar> < 2 powi (binaryExponent x + 1)"
proof -
  obtain a b where q: "quotient_of \<bar>x\<bar> = (a, b)" by (cases "quotient_of \<bar>x\<bar>")
  have pos: "0 < \<bar>x\<bar>" using assms by simp
  note bnd = pos_rat_bounds[OF pos q]
  show "2 powi (binaryExponent x) \<le> \<bar>x\<bar>"
    using bnd(1) by (simp add: binaryExponent_def q Let_def)
  show "\<bar>x\<bar> < 2 powi (binaryExponent x + 1)"
    using bnd(2) by (simp add: binaryExponent_def q Let_def not_le)
qed

lemma roundDouble_error: "\<bar>roundDouble x - x\<bar> \<le> unitRoundoff * \<bar>x\<bar>"
proof (cases "x = 0")
  case True
  then show ?thesis by (simp add: roundDouble_def)
next
  case False
  define ulp :: rat where "ulp = 2 powi (binaryExponent x - 52)"
  have ulp_pos: "0 < ulp" by (simp add: ulp_def)
  have rd: "roundDouble x = of_int (roundHalfEven (x / ulp)) * ulp"
    using False by (simp add: roundDouble_def ulp_def Let_def)
  have "roundDouble x - x = (of_int (roundHalfEven (x / ulp)) - x / ulp) * ulp"
    using ulp_pos by (simp add: rd algebra_simps)
  then have "\<bar>roundDouble x - x\<bar> = \<bar>of_int (roundHalfEven (x / ulp)) - x / ulp\<bar> * ulp"
    using ulp_pos by (simp add: abs_mult)
  also have "\<dots> \<le> (1 / 2) * ulp"
    using roundHalfEven_error[of "x / ulp"] ulp_pos by (intro mult_right_mono) simp_all
  also have "(1 / 2) * ulp = unitRoundoff * 2 powi (binaryExponent x)"
    using power_int_diff[of "2::rat" "binaryExponent x" 53]
    by (simp add: ulp_def unitRoundoff_def power_int_diff[of "2::rat" "binaryExponent x" 52])
  also have "\<dots> \<le> unitRoundoff * \<bar>x\<bar>"
    using binaryExponent_bounds(1)[OF False] by (intro mult_left_mono) (simp_all add: unitRoundoff_def)
  finally show ?thesis .
qed

lemma unitRoundoff_bounds: "0 < unitRoundoff" "unitRoundoff < 1"
  by (simp_all add: unitRoundoff_def)

lemma within_exact: "roundedWithin 0 x x"
  by (simp add: roundedWithin_def)

lemma within_nonneg: "0 \<le> x \<Longrightarrow> roundedWithin k v x \<Longrightarrow> 0 \<le> v"
proof -
  assume x: "0 \<le> x" and w: "roundedWithin k v x"
  have "0 \<le> (1 - unitRoundoff) ^ k" using unitRoundoff_bounds by simp
  then have "0 \<le> (1 - unitRoundoff) ^ k * x" using x by simp
  then show ?thesis using w by (simp add: roundedWithin_def)
qed

lemma roundDouble_within:
  assumes x: "0 \<le> x" and w: "roundedWithin k v x"
  shows "roundedWithin (Suc k) (roundDouble v) x"
proof -
  have v: "0 \<le> v" using x w by (rule within_nonneg)
  from roundDouble_error[of v] v
  have lo: "(1 - unitRoundoff) * v \<le> roundDouble v" and hi: "roundDouble v \<le> (1 + unitRoundoff) * v"
    by (simp_all add: abs_le_iff algebra_simps)
  have "(1 - unitRoundoff) ^ Suc k * x = (1 - unitRoundoff) * ((1 - unitRoundoff) ^ k * x)" by simp
  also have "\<dots> \<le> (1 - unitRoundoff) * v"
    using w unitRoundoff_bounds by (intro mult_left_mono) (simp_all add: roundedWithin_def)
  also note lo
  finally have 1: "(1 - unitRoundoff) ^ Suc k * x \<le> roundDouble v" .
  note hi
  also have "(1 + unitRoundoff) * v \<le> (1 + unitRoundoff) * ((1 + unitRoundoff) ^ k * x)"
    using w unitRoundoff_bounds by (intro mult_left_mono) (simp_all add: roundedWithin_def)
  also have "\<dots> = (1 + unitRoundoff) ^ Suc k * x" by simp
  finally have 2: "roundDouble v \<le> (1 + unitRoundoff) ^ Suc k * x" .
  show ?thesis using 1 2 by (simp add: roundedWithin_def)
qed

lemma within_mult:
  assumes x: "0 \<le> x" and y: "0 \<le> y" and a: "roundedWithin m a x" and b: "roundedWithin n b y"
  shows "roundedWithin (m + n) (a * b) (x * y)"
proof -
  have a0: "0 \<le> a" using x a by (rule within_nonneg)
  have b0: "0 \<le> b" using y b by (rule within_nonneg)
  have lo0: "0 \<le> (1 - unitRoundoff) ^ m * x" "0 \<le> (1 - unitRoundoff) ^ n * y"
    using x y unitRoundoff_bounds by simp_all
  have "((1 - unitRoundoff) ^ m * x) * ((1 - unitRoundoff) ^ n * y) \<le> a * b"
    using a b lo0 a0 b0 by (intro mult_mono) (simp_all add: roundedWithin_def)
  then have 1: "(1 - unitRoundoff) ^ (m + n) * (x * y) \<le> a * b"
    by (simp add: power_add algebra_simps)
  have "a * b \<le> ((1 + unitRoundoff) ^ m * x) * ((1 + unitRoundoff) ^ n * y)"
    using a b a0 b0 x y unitRoundoff_bounds by (intro mult_mono) (simp_all add: roundedWithin_def)
  then have 2: "a * b \<le> (1 + unitRoundoff) ^ (m + n) * (x * y)"
    by (simp add: power_add algebra_simps)
  show ?thesis using 1 2 by (simp add: roundedWithin_def)
qed

lemma timesDouble_within:
  assumes "0 \<le> x" "0 \<le> y" "roundedWithin m a x" "roundedWithin n b y" "k = Suc (m + n)"
  shows "roundedWithin k (timesDouble a b) (x * y)"
  unfolding timesDouble_def assms(5) using assms(1-4) by (intro roundDouble_within within_mult) simp_all

lemma divideDouble_within:
  assumes "0 \<le> x" "0 < c"
  shows "roundedWithin 1 (divideDouble x c) (x / c)"
  unfolding divideDouble_def using assms roundDouble_within[OF _ within_exact, of "x / c"] by simp

lemma weightKg_within:
  assumes "0 \<le> sl_width layout" "0 \<le> sl_length layout" "0 \<le> gr_thickness grp"
  shows "roundedWithin 6 (weightKg layout grp)
           ((sl_width layout / 1000) * (sl_length layout / 1000) * (gr_thickness grp / 1000) * 7850)"
proof -
  let ?w = "sl_width layout" and ?l = "sl_length layout" and ?t = "gr_thickness grp"
  have a: "roundedWithin 1 (divideDouble ?w 1000) (?w / 1000)"
    using assms by (intro divideDouble_within) simp_all
  have b: "roundedWithin 1 (divideDouble ?l 1000) (?l / 1000)"
    using assms by (intro divideDouble_within) simp_all
  have c: "roundedWithin 1 (divideDouble ?t 1000) (?t / 1000)"
    using assms by (intro divideDouble_within) simp_all
  have ab: "roundedWithin 3 (timesDouble (divideDouble ?w 1000) (divideDouble ?l 1000))
              ((?w / 1000) * (?l / 1000))"
    using assms by (intro timesDouble_within[OF _ _ a b]) simp_all
  have abc: "roundedWithin 5
               (timesDouble (timesDouble (divideDouble ?w 1000) (divideDouble ?l 1000))
                  (divideDouble ?t 1000))
               ((?w / 1000) * (?l / 1000) * (?t / 1000))"
    using assms by (intro timesDouble_within[OF _ _ ab c]) simp_all
  have "roundedWithin 6
          (timesDouble
             (timesDouble (timesDouble (divideDouble ?w 1000) (divideDouble ?l 1000))
                (divideDouble ?t 1000)) 7850)
          ((?w / 1000) * (?l / 1000) * (?t / 1000) * 7850)"
    using assms by (intro timesDouble_within[OF _ _ abc within_exact[of 7850]]) simp_all
  then show ?thesis by (simp add: weightKg_def steelDensityKgPerM3_def)
qed

lemma sizeInRange_nonneg: "sizeInRange x \<Longrightarrow> 0 \<le> x"
proof -
  assume "sizeInRange x"
  moreover have "(0::rat) \<le> 1 / 10 ^ 90" by simp
  ultimately show ?thesis unfolding sizeInRange_def by linarith
qed


section \<open>Results\<close>

subsection \<open>Determinism of the optimization call\<close>

text \<open>
  C1 (as stated: two runs on identical parts and parameters return identical results).
  This fails: the result is the answer of the remote service, and on the same parts and
  parameters one service answer gives one result and another answer another.
\<close>

theorem runOptimization_not_deterministic:
  "runOptimization serviceExample renderExample partsExample parametersExample
     \<noteq> runOptimization serviceEmpty renderExample partsExample parametersExample"
  by (simp add: runOptimization_def serviceExample_def serviceEmpty_def answerExample_def answerEmpty_def)

text \<open>
  C1 (amended). The result of \<open>runOptimization\<close> is determined by the parts, the
  parameters and the service's answer to the one prompt built from them: two runs whose
  services answer that prompt alike return the same value, whatever else the services do.
  No state is kept between runs.
\<close>

theorem runOptimization_determined_by_answer:
  assumes "generateContent (buildPrompt numToString ps params)
             = generateContent' (buildPrompt numToString ps params)"
  shows "runOptimization generateContent numToString ps params
           = runOptimization generateContent' numToString ps params"
  using assms by (simp add: runOptimization_def)

theorem runOptimization_determined_by_answer_witness:
  "serviceExample \<noteq> serviceByInstruction \<and>
   serviceExample (buildPrompt renderExample partsExample parametersExample)
     = serviceByInstruction (buildPrompt renderExample partsExample parametersExample) \<and>
   runOptimization serviceExample renderExample partsExample parametersExample
     = runOptimization serviceByInstruction renderExample partsExample parametersExample"
proof -
  have same: "serviceExample (buildPrompt renderExample partsExample parametersExample)
     = serviceByInstruction (buildPrompt renderExample partsExample parametersExample)"
    by (simp add: serviceExample_def serviceByInstruction_def buildPrompt_def
        parametersExample_def algorithmInstruction_def)
  have "serviceExample \<lparr>pr_instruction = MockEngineInstruction, pr_parameters = parametersExample,
           pr_materialGroups = []\<rparr>
        \<noteq> serviceByInstruction \<lparr>pr_instruction = MockEngineInstruction,
           pr_parameters = parametersExample, pr_materialGroups = []\<rparr>"
    by (simp add: serviceExample_def serviceByInstruction_def)
  then have "serviceExample \<noteq> serviceByInstruction" by metis
  then show ?thesis
    using same
      runOptimization_determined_by_answer[where generateContent = serviceExample
        and generateContent' = serviceByInstruction and numToString = renderExample
        and ps = partsExample and params = parametersExample]
    by simp
qed

subsection \<open>Sheet limits\<close>

text \<open>
  C2 (as stated: every sheet of every result has length at most \<open>maxSheetLength\<close> and a
  candidate width, and every sheet but the last of its group weighs within the roll weight
  range). This fails: the code returns the service's answer unchecked. Here the first of
  two sheets is 20000 long against a maximum of 18000, 2000 wide against the candidates
  1200 and 1500, and weighs 942 kg against a minimum of 4000; the result type has no field
  in which a violation could be flagged.
\<close>

theorem sheet_limits_counterexample:
  "runOptimization serviceExample renderExample partsExample parametersExample = Inr answerExample \<and>
   \<not> sheetLimitsHold [1200, 1500] parametersExample answerExample \<and>
   sl_length (gr_layouts (resultsByGroup answerExample ! 0) ! 0) > maxSheetLength parametersExample \<and>
   sl_width (gr_layouts (resultsByGroup answerExample ! 0) ! 0) \<notin> set [1200, 1500] \<and>
   length (gr_layouts (resultsByGroup answerExample ! 0)) = 2 \<and>
   weightKg (gr_layouts (resultsByGroup answerExample ! 0) ! 0) (resultsByGroup answerExample ! 0)
     < rw_min (rollWeightRange parametersExample)"
proof -
  have "weightKg (gr_layouts (resultsByGroup answerExample ! 0) ! 0) (resultsByGroup answerExample ! 0)
          = 942"
    by code_simp
  then show ?thesis
    by (simp add: runOptimization_def serviceExample_def sheetLimitsHold_def answerExample_def
        parametersExample_def)
qed

text \<open>
  C2 (amended). A result that \<open>runOptimization\<close> returns keeps the sheet limits exactly
  when the service's answer to the prompt keeps them; the code asks for the limits in the
  prompt and checks none of them.
\<close>

theorem sheet_limits_as_answered:
  assumes "runOptimization generateContent numToString ps params = Inr result"
  shows "sheetLimitsHold widths params result \<longleftrightarrow>
         (\<exists>answer. generateContent (buildPrompt numToString ps params) = Parsed answer \<and>
                   sheetLimitsHold widths params answer)"
  using assms by (simp add: runOptimization_Inr)

theorem sheet_limits_as_answered_witness:
  "runOptimization serviceGood renderExample partsExample parametersExample = Inr answerGood \<and>
   sheetLimitsHold [1200, 1500] parametersExample answerGood \<and>
   (\<exists>answer. serviceGood (buildPrompt renderExample partsExample parametersExample) = Parsed answer \<and>
             sheetLimitsHold [1200, 1500] parametersExample answer)"
proof -
  have run: "runOptimization serviceGood renderExample partsExample parametersExample = Inr answerGood"
    by (simp add: runOptimization_def serviceGood_def)
  have ok: "sheetLimitsHold [1200, 1500] parametersExample answerGood"
    by (simp add: sheetLimitsHold_def answerGood_def parametersExample_def weightInRange_def
        spec_weight_kg_def)
  show ?thesis
    using run ok sheet_limits_as_answered[OF run, of "[1200, 1500]"] by simp
qed

subsection \<open>Placements\<close>

text \<open>
  C3 (as stated: on every sheet of every result the kerf-inflated boxes of distinct nested
  parts do not overlap and every placement lies within the sheet). This fails: in the
  answer returned here the first and third part of the first sheet overlap and the second
  reaches beyond the sheet's width.
\<close>

theorem placements_counterexample:
  "runOptimization serviceExample renderExample partsExample parametersExample = Inr answerExample \<and>
   \<not> placementsHold parametersExample answerExample \<and>
   \<not> kerfApart (kerf parametersExample)
       (sl_nestedParts (gr_layouts (resultsByGroup answerExample ! 0) ! 0) ! 0)
       (sl_nestedParts (gr_layouts (resultsByGroup answerExample ! 0) ! 0) ! 2) \<and>
   \<not> withinSheet (gr_layouts (resultsByGroup answerExample ! 0) ! 0)
       (sl_nestedParts (gr_layouts (resultsByGroup answerExample ! 0) ! 0) ! 1)"
  by (simp add: runOptimization_def serviceExample_def placementsHold_def answerExample_def
      parametersExample_def kerfApart_def withinSheet_def effectiveWidth_def effectiveLength_def)

text \<open>
  C3 (amended). A result that \<open>runOptimization\<close> returns has placements within the sheets
  and a kerf apart exactly when the service's answer to the prompt has; the code checks no
  placement.
\<close>

theorem placements_as_answered:
  assumes "runOptimization generateContent numToString ps params = Inr result"
  shows "placementsHold params result \<longleftrightarrow>
         (\<exists>answer. generateContent (buildPrompt numToString ps params) = Parsed answer \<and>
                   placementsHold params answer)"
  using assms by (simp add: runOptimization_Inr)

theorem placements_as_answered_witness:
  "runOptimization serviceGood renderExample partsExample parametersExample = Inr answerGood \<and>
   placementsHold parametersExample answerGood \<and>
   (\<exists>answer. serviceGood (buildPrompt renderExample partsExample parametersExample) = Parsed answer \<and>
             placementsHold parametersExample answer)"
proof -
  have run: "runOptimization serviceGood renderExample partsExample parametersExample = Inr answerGood"
    by (simp add: runOptimization_def serviceGood_def)
  have ok: "placementsHold parametersExample answerGood"
    by (simp add: placementsHold_def answerGood_def parametersExample_def kerfApart_def
        withinSheet_def effectiveWidth_def effectiveLength_def)
  show ?thesis
    using run ok placements_as_answered[OF run] by simp
qed

subsection \<open>Grouping\<close>

text \<open>
  C4. For a part list whose thicknesses are written faithfully (as those of a validated
  list are), \<open>preprocessData\<close> partitions the parts by (grade, thickness): the groups are
  the distinct pairs in the order of their first occurrence; the key of a group is built
  from its grade and thickness; the parts of a group, cut down to the seven fields of
  \<open>Part\<close> (\<open>Part.truncate\<close>), are exactly the input parts with the group's grade and
  thickness, unchanged; all groups together hold every input part exactly once; and every
  part in a group carries \<open>area = width * length\<close> and
  \<open>exceedsSheetLength = (length > maxSheetLength)\<close>.
\<close>

theorem preprocessData_partitions:
  assumes faithful: "rendersFaithfully numToString (p_thickness ` set ps)"
  shows "map (\<lambda>g. (mg_grade g, mg_thickness g)) (preprocessData numToString ps maxLen)
           = firstOccurrences (map (\<lambda>p. (p_grade p, p_thickness p)) ps)
       \<and> (\<forall>g \<in> set (preprocessData numToString ps maxLen).
            mg_materialKey g = mg_grade g @ ''_'' @ numToString (mg_thickness g) @ ''mm'' \<and>
            mset (map Part.truncate (mg_parts g))
              = mset (filter (\<lambda>p. p_grade p = mg_grade g \<and> p_thickness p = mg_thickness g) ps) \<and>
            (\<forall>a \<in> set (mg_parts g). area a = p_width a * p_length a \<and>
               exceedsSheetLength a = (p_length a > maxLen)))
       \<and> mset (map Part.truncate (concat (map mg_parts (preprocessData numToString ps maxLen))))
           = mset ps"
proof -
  note ann = preprocessData_partitions_annotated[OF faithful, of maxLen]
  have members: "mset (map Part.truncate (mg_parts g))
      = mset (filter (\<lambda>p. p_grade p = mg_grade g \<and> p_thickness p = mg_thickness g) ps)"
    if g: "g \<in> set (preprocessData numToString ps maxLen)" for g
  proof -
    have "mset (mg_parts g) = mset (map (annotate maxLen)
               (filter (\<lambda>p. p_grade p = mg_grade g \<and> p_thickness p = mg_thickness g) ps))"
      using ann[THEN conjunct2, THEN conjunct1, THEN bspec, OF g] by simp
    then have "mset (map Part.truncate (mg_parts g)) = mset (map Part.truncate (map (annotate maxLen)
               (filter (\<lambda>p. p_grade p = mg_grade g \<and> p_thickness p = mg_thickness g) ps)))"
      by (simp only: mset_map)
    then show ?thesis by (simp only: map_truncate_annotate)
  qed
  have "mset (map Part.truncate (concat (map mg_parts (preprocessData numToString ps maxLen))))
          = mset (map Part.truncate (map (annotate maxLen) ps))"
    using ann[THEN conjunct2, THEN conjunct2] by (simp only: mset_map)
  then have all: "mset (map Part.truncate (concat (map mg_parts (preprocessData numToString ps maxLen))))
          = mset ps"
    by (simp only: map_truncate_annotate)
  have order: "map (\<lambda>g. (mg_grade g, mg_thickness g)) (preprocessData numToString ps maxLen)
           = firstOccurrences (map (\<lambda>p. (p_grade p, p_thickness p)) ps)"
    using ann by (rule conjunct1)
  have rest: "mg_materialKey g = mg_grade g @ ''_'' @ numToString (mg_thickness g) @ ''mm'' \<and>
            (\<forall>a \<in> set (mg_parts g). area a = p_width a * p_length a \<and>
               exceedsSheetLength a = (p_length a > maxLen))"
    if g: "g \<in> set (preprocessData numToString ps maxLen)" for g
    using ann[THEN conjunct2, THEN conjunct1, THEN bspec, OF g] by simp
  show ?thesis
  proof (intro conjI ballI)
    show "map (\<lambda>g. (mg_grade g, mg_thickness g)) (preprocessData numToString ps maxLen)
           = firstOccurrences (map (\<lambda>p. (p_grade p, p_thickness p)) ps)" by (rule order)
  next
    fix g assume g: "g \<in> set (preprocessData numToString ps maxLen)"
    show "mg_materialKey g = mg_grade g @ ''_'' @ numToString (mg_thickness g) @ ''mm''"
      using rest[OF g] by (rule conjunct1)
    show "mset (map Part.truncate (mg_parts g))
              = mset (filter (\<lambda>p. p_grade p = mg_grade g \<and> p_thickness p = mg_thickness g) ps)"
      by (rule members[OF g])
    fix a assume a: "a \<in> set (mg_parts g)"
    show "area a = p_width a * p_length a"
      using rest[OF g, THEN conjunct2, THEN bspec, OF a] by (rule conjunct1)
    show "exceedsSheetLength a = (p_length a > maxLen)"
      using rest[OF g, THEN conjunct2, THEN bspec, OF a] by (rule conjunct2)
  next
    show "mset (map Part.truncate (concat (map mg_parts (preprocessData numToString ps maxLen))))
           = mset ps" by (rule all)
  qed
qed

theorem preprocessData_partitions_witness:
  "rendersFaithfully renderExample (p_thickness ` set partsExample) \<and>
   map (\<lambda>g. (mg_grade g, mg_thickness g)) (preprocessData renderExample partsExample 18000)
     = [(''SS400'', 2), (''A36'', 3)] \<and>
   map (\<lambda>g. map p_id (mg_parts g)) (preprocessData renderExample partsExample 18000)
     = [[''c'', ''a'', ''d''], [''b'']] \<and>
   mset (map Part.truncate (concat (map mg_parts (preprocessData renderExample partsExample 18000))))
     = mset partsExample"
proof -
  have h: "rendersFaithfully renderExample (p_thickness ` set partsExample)"
    by (simp add: rendersFaithfully_def renderExample_def partsExample_def inj_on_def)
  have "firstOccurrences (map (\<lambda>p. (p_grade p, p_thickness p)) partsExample)
        = [(''SS400'', 2), (''A36'', 3)]"
    by (simp add: partsExample_def)
  moreover have "map (\<lambda>g. map p_id (mg_parts g)) (preprocessData renderExample partsExample 18000)
     = [[''c'', ''a'', ''d''], [''b'']]"
    by code_simp
  ultimately show ?thesis
    using h preprocessData_partitions[OF h, of 18000] by simp
qed

subsection \<open>Sorting within a group\<close>

text \<open>
  C5. In every group that \<open>preprocessData\<close> returns the parts are in descending order of
  width, then area, then length, and the sort is stable: the parts that tie on all three
  stand in the order in which the input lists them.
\<close>

theorem preprocessData_sorted:
  "\<forall>g \<in> set (preprocessData numToString ps maxLen).
     sorted_wrt spec_precedes (mg_parts g) \<and>
     (\<forall>k. filter (\<lambda>a. sortKey a = k) (mg_parts g)
          = filter (\<lambda>a. sortKey a = k)
              (map (annotate maxLen)
                 (filter (\<lambda>p. materialKeyOf numToString p = mg_materialKey g) ps)))"
proof
  fix g assume g: "g \<in> set (preprocessData numToString ps maxLen)"
  show "sorted_wrt spec_precedes (mg_parts g) \<and>
     (\<forall>k. filter (\<lambda>a. sortKey a = k) (mg_parts g)
          = filter (\<lambda>a. sortKey a = k)
              (map (annotate maxLen)
                 (filter (\<lambda>p. materialKeyOf numToString p = mg_materialKey g) ps)))"
    unfolding preprocessData_parts[OF g]
    by (simp only: sorted_sortBy_compareParts sortBy_stable simp_thms)
qed

theorem preprocessData_sorted_witness:
  "preprocessData renderExample partsExample 18000 ! 0
     \<in> set (preprocessData renderExample partsExample 18000) \<and>
   map p_id (mg_parts (preprocessData renderExample partsExample 18000 ! 0)) = [''c'', ''a'', ''d''] \<and>
   sorted_wrt spec_precedes (mg_parts (preprocessData renderExample partsExample 18000 ! 0)) \<and>
   map p_id (filter (\<lambda>a. sortKey a = (500, 750000, 1500))
               (mg_parts (preprocessData renderExample partsExample 18000 ! 0))) = [''a'', ''d'']"
proof -
  let ?gs = "preprocessData renderExample partsExample 18000"
  have len: "length ?gs = 2" by code_simp
  then have mem: "?gs ! 0 \<in> set ?gs" by simp
  have ids: "map p_id (mg_parts (?gs ! 0)) = [''c'', ''a'', ''d'']" by code_simp
  have key: "mg_materialKey (?gs ! 0) = ''SS400_2mm''" by code_simp
  have inp: "map p_id (filter (\<lambda>a. sortKey a = (500, 750000, 1500))
              (map (annotate 18000)
                 (filter (\<lambda>p. materialKeyOf renderExample p = ''SS400_2mm'') partsExample)))
             = [''a'', ''d'']"
    by code_simp
  from preprocessData_sorted[of renderExample partsExample 18000] mem
  have "sorted_wrt spec_precedes (mg_parts (?gs ! 0)) \<and>
     (\<forall>k. filter (\<lambda>a. sortKey a = k) (mg_parts (?gs ! 0))
          = filter (\<lambda>a. sortKey a = k)
              (map (annotate 18000)
                 (filter (\<lambda>p. materialKeyOf renderExample p = mg_materialKey (?gs ! 0)) partsExample)))"
    by blast
  then show ?thesis using mem ids inp key by simp
qed

subsection \<open>Invalid input\<close>

text \<open>
  C6. When some part has a non-positive width, length or thickness, or a quantity that is
  not a positive integer, the validation fails and the handler returns with the banner
  set, whatever the service would answer: \<open>runOptimization\<close> is not called, so nothing
  is grouped, no result is stored and the loading flag is untouched. The errors stored in
  the state are keyed by part id and hold the id of every offending part.
\<close>

theorem invalid_input_fails_run:
  assumes "\<exists>p \<in> set (st_parts st). spec_inputInvalid p"
  shows "\<not> snd (validateParts st) \<and>
         handleRunOptimization generateContent numToString st
           = (fst (validateParts st))\<lparr>st_apiError := Some FixTableErrors\<rparr> \<and>
         st_optimizationResult (handleRunOptimization generateContent numToString st)
           = st_optimizationResult st \<and>
         st_isLoading (handleRunOptimization generateContent numToString st) = st_isLoading st \<and>
         (\<forall>p \<in> set (st_parts st). spec_inputInvalid p \<longrightarrow>
            p_id p \<in> dom (st_errors (handleRunOptimization generateContent numToString st)))"
proof -
  from assms obtain q where q: "q \<in> set (st_parts st)" "errorCount (checkPart q) > 0"
    using spec_inputInvalid_counted by metis
  have fails: "\<not> snd (validateParts st)" by (rule validateParts_fails(1)[OF q])
  note run = handleRunOptimization_rejected[OF fails, of generateContent numToString]
  have errs: "st_errors (handleRunOptimization generateContent numToString st)
                   = st_errors (fst (validateParts st))"
    by (simp add: run)
  have reported: "p_id p \<in> dom (st_errors (handleRunOptimization generateContent numToString st))"
    if "p \<in> set (st_parts st)" "spec_inputInvalid p" for p
    unfolding errs using that(1) spec_inputInvalid_counted[OF that(2)]
    by (rule validateParts_fails(2))
  show ?thesis using fails run reported by (simp add: validateParts_keeps)
qed

theorem invalid_input_fails_run_witness:
  "(\<exists>p \<in> set (st_parts stateInvalid). spec_inputInvalid p) \<and>
   st_apiError (handleRunOptimization serviceGood renderExample stateInvalid) = Some FixTableErrors \<and>
   st_optimizationResult (handleRunOptimization serviceGood renderExample stateInvalid) = None \<and>
   dom (st_errors (handleRunOptimization serviceGood renderExample stateInvalid)) = {''a'', ''c''}"
proof -
  have h: "\<exists>p \<in> set (st_parts stateInvalid). spec_inputInvalid p"
    by (simp add: stateInvalid_def spec_inputInvalid_def)
  have v: "dom (st_errors (fst (validateParts stateInvalid))) = {''a'', ''c''}"
    by (simp add: validateParts_result(2) stateInvalid_def errorCount_pos_iff isInteger_def) 
  have "st_optimizationResult stateInvalid = None" by (simp add: stateInvalid_def)
  then show ?thesis
    using h v invalid_input_fails_run[OF h, of serviceGood renderExample]
    by (simp add: validateParts_keeps)
qed

subsection \<open>Parts longer than the maximum sheet length\<close>

text \<open>
  C7 (as stated: a part longer than \<open>maxSheetLength\<close> is flagged, never appears among the
  nested parts of any sheet, and is reported as unplaceable). The flag holds, the rest
  fails: the part is sent to the service with the others, and an answer that places it is
  returned as it is. Part \<open>b\<close> is 20000 long against a maximum of 18000 and is among the
  placed parts of the result. The result type has no field for a report of unplaceable
  parts.
\<close>

theorem oversize_part_placed_counterexample:
  "partsExample ! 1 \<in> set partsExample \<and>
   p_length (partsExample ! 1) > maxSheetLength parametersExample \<and>
   runOptimization serviceExample renderExample partsExample parametersExample = Inr answerExample \<and>
   p_id (partsExample ! 1) \<in> placedIds answerExample"
  by (simp add: runOptimization_def serviceExample_def placedIds_def answerExample_def
      parametersExample_def partsExample_def)

text \<open>
  C7 (amended). Every part longer than \<open>maxSheetLength\<close> is put, unchanged in its seven
  fields and with \<open>exceedsSheetLength\<close> set, in its material group of the prompt: the group
  with the part's key, grade and thickness, and no other group. The flag is set on no
  other part. Whether such a part is placed is left to the service.
\<close>

theorem oversize_parts_flagged:
  assumes faithful: "rendersFaithfully numToString (p_thickness ` set ps)"
  shows
  "(\<forall>p \<in> set ps. p_length p > maxSheetLength params \<longrightarrow>
      (\<exists>g \<in> set (pr_materialGroups (buildPrompt numToString ps params)).
         mg_materialKey g = materialKeyOf numToString p \<and>
         mg_grade g = p_grade p \<and> mg_thickness g = p_thickness p \<and>
         (\<exists>a \<in> set (mg_parts g). Part.truncate a = p \<and> exceedsSheetLength a)) \<and>
      (\<forall>g \<in> set (pr_materialGroups (buildPrompt numToString ps params)).
         (\<exists>a \<in> set (mg_parts g). Part.truncate a = p) \<longrightarrow>
         mg_materialKey g = materialKeyOf numToString p)) \<and>
   (\<forall>g \<in> set (pr_materialGroups (buildPrompt numToString ps params)).
      \<forall>a \<in> set (mg_parts g). exceedsSheetLength a \<longleftrightarrow> p_length a > maxSheetLength params)"
proof -
  let ?m = "maxSheetLength params"
  have groups: "pr_materialGroups (buildPrompt numToString ps params)
                  = preprocessData numToString ps ?m"
    by (simp add: buildPrompt_def)
  have own: "\<exists>g \<in> set (preprocessData numToString ps ?m).
         mg_materialKey g = materialKeyOf numToString p \<and>
         mg_grade g = p_grade p \<and> mg_thickness g = p_thickness p \<and>
         (\<exists>a \<in> set (mg_parts g). Part.truncate a = p \<and> exceedsSheetLength a)"
    if p: "p \<in> set ps" and long: "p_length p > ?m" for p
  proof -
    from preprocessData_has_part[OF p, of numToString ?m]
    obtain g where g: "g \<in> set (preprocessData numToString ps ?m)"
      and k: "mg_materialKey g = materialKeyOf numToString p"
      and a: "annotate ?m p \<in> set (mg_parts g)" by metis
    have pair: "mg_grade g = p_grade p \<and> mg_thickness g = p_thickness p"
      using preprocessData_group_pair[OF faithful p g k] .
    have "Part.truncate (annotate ?m p) = p \<and> exceedsSheetLength (annotate ?m p)"
      using long by (simp add: truncate_annotate) (simp add: annotate_def)
    then show ?thesis using g k pair a by metis
  qed
  have only: "mg_materialKey g = materialKeyOf numToString p"
    if g: "g \<in> set (preprocessData numToString ps ?m)"
      and a: "a \<in> set (mg_parts g)" and t: "Part.truncate a = p" for g a p
  proof -
    have "a \<in> set (map (annotate ?m)
             (filter (\<lambda>q. materialKeyOf numToString q = mg_materialKey g) ps))"
      using a unfolding preprocessData_parts[OF g] set_sortBy .
    then obtain q where q: "materialKeyOf numToString q = mg_materialKey g" "a = annotate ?m q"
      by (simp add: image_iff) metis
    then have "q = p" using t by (simp add: truncate_annotate)
    then show ?thesis using q(1) by simp
  qed
  have flag: "exceedsSheetLength a \<longleftrightarrow> p_length a > ?m"
    if g: "g \<in> set (preprocessData numToString ps ?m)" and a: "a \<in> set (mg_parts g)" for g a
  proof -
    from preprocessData_annotated[OF g a]
    obtain p where "a = annotate ?m p" by metis
    then show ?thesis by (simp add: annotate_def)
  qed
  show ?thesis
    unfolding groups
  proof (intro conjI ballI impI)
    fix p assume "p \<in> set ps" "p_length p > ?m"
    then show "\<exists>g \<in> set (preprocessData numToString ps ?m).
         mg_materialKey g = materialKeyOf numToString p \<and>
         mg_grade g = p_grade p \<and> mg_thickness g = p_thickness p \<and>
         (\<exists>a \<in> set (mg_parts g). Part.truncate a = p \<and> exceedsSheetLength a)"
      by (rule own)
  next
    fix p g assume "g \<in> set (preprocessData numToString ps ?m)"
      and "\<exists>a \<in> set (mg_parts g). Part.truncate a = p"
    then show "mg_materialKey g = materialKeyOf numToString p"
      using only by metis
  next
    fix g a assume "g \<in> set (preprocessData numToString ps ?m)" "a \<in> set (mg_parts g)"
    then show "exceedsSheetLength a \<longleftrightarrow> p_length a > ?m" by (rule flag)
  qed
qed

theorem oversize_parts_flagged_witness:
  "rendersFaithfully renderExample (p_thickness ` set partsExample) \<and>
   partsExample ! 1 \<in> set partsExample \<and>
   p_length (partsExample ! 1) > maxSheetLength parametersExample \<and>
   (\<exists>g \<in> set (pr_materialGroups (buildPrompt renderExample partsExample parametersExample)).
      mg_materialKey g = ''A36_3mm'' \<and> mg_grade g = ''A36'' \<and> mg_thickness g = 3 \<and>
      (\<exists>a \<in> set (mg_parts g). Part.truncate a = partsExample ! 1 \<and> exceedsSheetLength a))"
proof -
  have h: "rendersFaithfully renderExample (p_thickness ` set partsExample)"
    by (simp add: rendersFaithfully_def renderExample_def partsExample_def inj_on_def)
  have mem: "partsExample ! 1 \<in> set partsExample" by (simp add: partsExample_def)
  have long: "p_length (partsExample ! 1) > maxSheetLength parametersExample"
    by (simp add: partsExample_def parametersExample_def)
  have f: "materialKeyOf renderExample (partsExample ! 1) = ''A36_3mm''"
    "p_grade (partsExample ! 1) = ''A36''" "p_thickness (partsExample ! 1) = 3"
    by (simp_all add: partsExample_def materialKeyOf_def renderExample_def)
  from oversize_parts_flagged[OF h, of parametersExample] mem long
  have "\<exists>g \<in> set (pr_materialGroups (buildPrompt renderExample partsExample parametersExample)).
         mg_materialKey g = materialKeyOf renderExample (partsExample ! 1) \<and>
         mg_grade g = p_grade (partsExample ! 1) \<and> mg_thickness g = p_thickness (partsExample ! 1) \<and>
         (\<exists>a \<in> set (mg_parts g). Part.truncate a = partsExample ! 1 \<and> exceedsSheetLength a)"
    by blast
  then show ?thesis using h mem long unfolding f by simp
qed


subsection \<open>The displayed weight\<close>

text \<open>
  C8 (as stated: the weight computed for display and export,
  (width/1000) * (length/1000) * (thickness/1000) * 7850, equals the specification's
  width * length * thickness * 0.00000785 for all non-negative sizes). This fails in the
  arithmetic of the code. For a sheet of 1000 by 1100 and thickness 3 the code computes
  25.905000000000005 (shown as 25.91); the formula gives 25.905, and computed in doubles
  25.904999999999998 (shown as 25.90). For the sheet of 2000 by 20000 and thickness 3 the
  code computes 942 and the formula in doubles 941.9999999999999.
\<close>

theorem weightKg_differs_from_spec_weight:
  "weightKg layoutSmall groupSmall = 7291609271689545 / 281474976710656 \<and>
   spec_weight_kg (sl_width layoutSmall) (sl_length layoutSmall) (gr_thickness groupSmall)
     = 5181 / 200 \<and>
   spec_weight_kg_doubles (sl_width layoutSmall) (sl_length layoutSmall) (gr_thickness groupSmall)
     = 7291609271689543 / 281474976710656 \<and>
   toFixedHundredths (weightKg layoutSmall groupSmall) = 2591 \<and>
   toFixedHundredths
     (spec_weight_kg_doubles (sl_width layoutSmall) (sl_length layoutSmall) (gr_thickness groupSmall))
     = 2590 \<and>
   weightKg layoutSmall groupSmall
     \<noteq> spec_weight_kg (sl_width layoutSmall) (sl_length layoutSmall) (gr_thickness groupSmall) \<and>
   weightKg layoutSmall groupSmall
     \<noteq> spec_weight_kg_doubles (sl_width layoutSmall) (sl_length layoutSmall)
         (gr_thickness groupSmall) \<and>
   weightKg (gr_layouts (resultsByGroup answerExample ! 0) ! 0) (resultsByGroup answerExample ! 0)
     = 942 \<and>
   spec_weight_kg_doubles 2000 20000 3 = 8285919626919935 / 8796093022208"
proof -
  have 1: "weightKg layoutSmall groupSmall = 7291609271689545 / 281474976710656"
    by code_simp
  have 2: "spec_weight_kg (sl_width layoutSmall) (sl_length layoutSmall) (gr_thickness groupSmall)
     = 5181 / 200"
    by (simp add: spec_weight_kg_def layoutSmall_def groupSmall_def)
  have 3: "spec_weight_kg_doubles (sl_width layoutSmall) (sl_length layoutSmall)
             (gr_thickness groupSmall) = 7291609271689543 / 281474976710656"
    by code_simp
  have 4: "toFixedHundredths (7291609271689545 / 281474976710656) = 2591"
    by code_simp
  have 5: "toFixedHundredths (7291609271689543 / 281474976710656) = 2590"
    by code_simp
  have 6: "weightKg (gr_layouts (resultsByGroup answerExample ! 0) ! 0)
             (resultsByGroup answerExample ! 0) = 942"
    by code_simp
  have 7: "spec_weight_kg_doubles 2000 20000 3 = 8285919626919935 / 8796093022208"
    by code_simp
  have 8: "(7291609271689545 / 281474976710656 :: rat) \<noteq> 5181 / 200"
    "(7291609271689545 / 281474976710656 :: rat) \<noteq> 7291609271689543 / 281474976710656"
    by simp_all
  show ?thesis by (simp only: 1 2 3 4 5 6 7 8 simp_thms)
qed

text \<open>
  C8 (amended). The two expressions are equal as formulas over exact numbers, and the
  weight the code computes in doubles lies within six roundings of the specification's
  formula: between \<open>(1 - u)^6\<close> and \<open>(1 + u)^6\<close> times width * length * thickness *
  0.00000785, with \<open>u = 2^-53\<close>, for sizes that are zero or between 10^-90 and 10^90.
\<close>

theorem weightKg_within_rounding_of_spec_weight:
  assumes "sizeInRange (sl_width layout)" "sizeInRange (sl_length layout)"
    "sizeInRange (gr_thickness grp)"
  shows "(sl_width layout / 1000) * (sl_length layout / 1000) * (gr_thickness grp / 1000)
            * steelDensityKgPerM3
           = spec_weight_kg (sl_width layout) (sl_length layout) (gr_thickness grp) \<and>
         (1 - unitRoundoff) ^ 6 * spec_weight_kg (sl_width layout) (sl_length layout) (gr_thickness grp)
           \<le> weightKg layout grp \<and>
         weightKg layout grp
           \<le> (1 + unitRoundoff) ^ 6 * spec_weight_kg (sl_width layout) (sl_length layout) (gr_thickness grp)"
proof -
  have exact: "(sl_width layout / 1000) * (sl_length layout / 1000) * (gr_thickness grp / 1000) * 7850
           = spec_weight_kg (sl_width layout) (sl_length layout) (gr_thickness grp)"
    by (simp add: spec_weight_kg_def)
  have "roundedWithin 6 (weightKg layout grp)
          (spec_weight_kg (sl_width layout) (sl_length layout) (gr_thickness grp))"
    using weightKg_within[of layout grp] assms sizeInRange_nonneg unfolding exact by blast
  then show ?thesis using exact by (simp add: roundedWithin_def steelDensityKgPerM3_def)
qed

theorem weightKg_within_rounding_of_spec_weight_witness:
  "sizeInRange (sl_width layoutSmall) \<and> sizeInRange (sl_length layoutSmall) \<and>
   sizeInRange (gr_thickness groupSmall) \<and>
   weightKg layoutSmall groupSmall \<noteq> 5181 / 200 \<and>
   (1 - unitRoundoff) ^ 6 * (5181 / 200) \<le> weightKg layoutSmall groupSmall \<and>
   weightKg layoutSmall groupSmall \<le> (1 + unitRoundoff) ^ 6 * (5181 / 200)"
proof -
  have r: "sizeInRange (sl_width layoutSmall)" "sizeInRange (sl_length layoutSmall)"
    "sizeInRange (gr_thickness groupSmall)"
    by (simp_all add: sizeInRange_def layoutSmall_def groupSmall_def)
  have s: "spec_weight_kg (sl_width layoutSmall) (sl_length layoutSmall) (gr_thickness groupSmall)
     = 5181 / 200"
    by (simp add: spec_weight_kg_def layoutSmall_def groupSmall_def)
  have v: "weightKg layoutSmall groupSmall = 7291609271689545 / 281474976710656"
    by code_simp
  have ne: "weightKg layoutSmall groupSmall \<noteq> 5181 / 200" unfolding v by simp
  show ?thesis
    using r ne weightKg_within_rounding_of_spec_weight[OF r] unfolding s by simp
qed

subsection \<open>CSV export\<close>

text \<open>
  C9 (one data row for each nested part, with the thirteen columns group key, thickness,
  grade, sheet number, sheet width, sheet length, part id, part width, part length, x, y,
  rotated and sheet waste percentage). The code pushes one row of thirteen cells for each
  nested part (lemma \<open>csvRows_one_per_nested_part\<close>), but it puts the three texts between
  double quotes without escaping a double quote inside them, so the file it emits does not
  always read back that way. With the part id \<open>P",1,"Q\<close> the one data row of the file
  reads as fifteen cells under a header of thirteen; with a double quote, a line feed and
  a double quote in the part id the file reads as three records for one nested part.
\<close>

theorem exportToCsv_unescaped_text:
  \<open>exportToCsv renderCsvExample toFixed2Example (resultWithId idWithQuotesAndCommas) =
     ''Material Group,Thickness (mm),Grade,Sheet Number,Sheet Width (mm),Sheet Length (mm),''
     @ ''Part ID,Part Width (mm),Part Length (mm),X,Y,Rotated,Sheet Waste %'' @ [CHR 0x0A]
     @ ''"A36_3mm",3,"A36",1,1000,1100,"P",1,"Q",800,1100,0,0,FALSE,20.00'' \<and>
   length (nestedPartsOf (resultWithId idWithQuotesAndCommas)) = 1 \<and>
   map length (readCsv (exportToCsv renderCsvExample toFixed2Example
                          (resultWithId idWithQuotesAndCommas))) = [13, 15] \<and>
   length (nestedPartsOf (resultWithId idWithLineFeed)) = 1 \<and>
   map length (readCsv (exportToCsv renderCsvExample toFixed2Example
                          (resultWithId idWithLineFeed))) = [13, 7, 7]\<close>
proof -
  have 1: \<open>exportToCsv renderCsvExample toFixed2Example (resultWithId idWithQuotesAndCommas) =
     ''Material Group,Thickness (mm),Grade,Sheet Number,Sheet Width (mm),Sheet Length (mm),''
     @ ''Part ID,Part Width (mm),Part Length (mm),X,Y,Rotated,Sheet Waste %'' @ [CHR 0x0A]
     @ ''"A36_3mm",3,"A36",1,1000,1100,"P",1,"Q",800,1100,0,0,FALSE,20.00''\<close>
    by code_simp
  have 2: "length (nestedPartsOf (resultWithId idWithQuotesAndCommas)) = 1"
    by code_simp
  have 3: "map length (readCsv (exportToCsv renderCsvExample toFixed2Example
                          (resultWithId idWithQuotesAndCommas))) = [13, 15]"
    by code_simp
  have 4: "length (nestedPartsOf (resultWithId idWithLineFeed)) = 1"
    by code_simp
  have 5: "map length (readCsv (exportToCsv renderCsvExample toFixed2Example
                          (resultWithId idWithLineFeed))) = [13, 7, 7]"
    by code_simp
  show ?thesis using 1 2 3 4 5 by (intro conjI)
qed

subsection \<open>Validation beyond the specification's input rules\<close>

text \<open>
  C10. A part with an empty grade or an empty project name fails the validation, and the
  run is not started. The witness is a list in which every part keeps the input rules of
  the specification (positive width, length and thickness, positive integer quantity) and
  one part has an empty grade: the validation of the code is strictly stronger.
\<close>

theorem empty_grade_fails_run:
  assumes "\<exists>p \<in> set (st_parts st). p_grade p = [] \<or> p_projectName p = []"
  shows "\<not> snd (validateParts st) \<and>
         handleRunOptimization generateContent numToString st
           = (fst (validateParts st))\<lparr>st_apiError := Some FixTableErrors\<rparr> \<and>
         st_optimizationResult (handleRunOptimization generateContent numToString st)
           = st_optimizationResult st"
proof -
  from assms obtain q where q: "q \<in> set (st_parts st)" "errorCount (checkPart q) > 0"
    unfolding errorCount_pos_iff by metis
  have fails: "\<not> snd (validateParts st)" by (rule validateParts_fails(1)[OF q])
  show ?thesis
    using fails handleRunOptimization_rejected[OF fails, of generateContent numToString]
    by (simp add: validateParts_keeps)
qed

theorem empty_grade_fails_run_witness:
  "list_all (\<lambda>p. \<not> spec_inputInvalid p) (st_parts stateEmptyGrade) \<and>
   (\<exists>p \<in> set (st_parts stateEmptyGrade). p_grade p = [] \<or> p_projectName p = []) \<and>
   \<not> snd (validateParts stateEmptyGrade) \<and>
   st_apiError (handleRunOptimization serviceGood renderExample stateEmptyGrade) = Some FixTableErrors \<and>
   st_optimizationResult (handleRunOptimization serviceGood renderExample stateEmptyGrade) = None"
proof -
  have valid: "list_all (\<lambda>p. \<not> spec_inputInvalid p) (st_parts stateEmptyGrade)"
    by (simp add: stateEmptyGrade_def spec_inputInvalid_def isInteger_def)
  have h: "\<exists>p \<in> set (st_parts stateEmptyGrade). p_grade p = [] \<or> p_projectName p = []"
    by (simp add: stateEmptyGrade_def)
  have "st_optimizationResult stateEmptyGrade = None" by (simp add: stateEmptyGrade_def)
  then show ?thesis
    using valid h empty_grade_fails_run[OF h, of serviceGood renderExample]
    by (simp add: validateParts_keeps)
qed

end
